theory Spec2Isabelle
  imports Main
begin

section \<open>Data model\<close>

text \<open>
  The Python \<^verbatim>\<open>str\<close> values of \<^verbatim>\<open>topology_cacher.py\<close> are modelled by \<^typ>\<open>string\<close>, one
  \<^typ>\<open>char\<close> per code point (code points above 255 are outside the model); the bytes of
  a response body by a list of \<^typ>\<open>char\<close> as well.
\<close>

type_synonym bytes = "char list"

text \<open>
  An \<^verbatim>\<open>xml.etree.ElementTree.Element\<close>, as far as the program reads it: the tag, the
  \<^verbatim>\<open>text\<close> attribute (\<^verbatim>\<open>None\<close> for an element without character data before its
  first child or end tag, such as \<^verbatim>\<open><Name/>\<close>), and the child elements in document order.
\<close>

datatype element = Element (tag: string) (elem_text: "string option") (children: "element list")

text \<open>
  The exceptions the program can end with: its own \<^verbatim>\<open>DataError\<close>, two of Python's that
  its own code can raise, and an exception of any other class that a library call raises
  and the program does not catch (kept with the name of its class).
\<close>

datatype exn = DataError string | AttributeError | KeyError | Uncaught string

text \<open>\<^verbatim>\<open>class ResourceInfo(namedtuple("ResourceInfo", "group_name name fqdn service_ids tags"))\<close>\<close>

record ResourceInfo =
  group_name :: string
  name :: string
  fqdn :: string
  service_ids :: "string list"
  tags :: "string list"

definition SERVICE_ID_CE :: string where
  "SERVICE_ID_CE = ''1''"

definition SERVICE_ID_SCHEDD :: string where
  "SERVICE_ID_SCHEDD = ''109''"

definition is_ce :: "ResourceInfo \<Rightarrow> bool" where
  "is_ce r = (SERVICE_ID_CE \<in> set (service_ids r))"

definition is_schedd :: "ResourceInfo \<Rightarrow> bool" where
  "is_schedd r = (SERVICE_ID_SCHEDD \<in> set (service_ids r))"

text \<open>The fields of a \<^verbatim>\<open>TopologyData\<close> object.\<close>

record TopologyData =
  topology_base :: string
  resinfo_table :: "ResourceInfo list"
  grouped_resinfo :: "string \<rightharpoonup> ResourceInfo list"
  resinfo_by_name :: "string \<rightharpoonup> ResourceInfo"
  resinfo_by_fqdn :: "string \<rightharpoonup> ResourceInfo"
  projects :: "element option"
  resources :: "element option"

text \<open>
  The records of \<^verbatim>\<open>log.warning\<close>, in the order of the calls. A record keeps the element
  that \<^verbatim>\<open>elem2str\<close> would print (or the string that is formatted) and which of the
  program's messages it is.
\<close>

datatype diag =
    MalformedResourceGroup element
  | MalformedResource element
  | ProjectMissingName element
  | AllocationMissing string element
  | MissingSubmitResource element
  | MalformedExecuteResourceGroup element
  | MissingExecuteResourceGroup string

text \<open>The dictionaries of the allocation output, with their keys as fields.\<close>

record submit_resource =
  sr_fqdn :: string
  sr_group_name :: string
  sr_name :: string

record ce_entry =
  ce_fqdn :: string
  ce_name :: string

record execute_resource_group =
  erg_ces :: "ce_entry list"
  erg_group_name :: string
  erg_local_allocation_id :: string

record allocation =
  alloc_type :: string
  alloc_submit_resources :: "submit_resource list"
  alloc_execute_resource_groups :: "execute_resource_group list"

section \<open>The library functions the program calls\<close>

text \<open>
  \<^verbatim>\<open>str.strip()\<close> removes leading and trailing whitespace; these are the whitespace code
  points below 256.
\<close>

definition isspace :: "char \<Rightarrow> bool" where
  "isspace c = (c \<in> set [CHR 0x09, CHR 0x0A, CHR 0x0B, CHR 0x0C, CHR 0x0D,
      CHR 0x1C, CHR 0x1D, CHR 0x1E, CHR 0x1F, CHR 0x20, CHR 0x85, CHR 0xA0])"

definition strip :: "string \<Rightarrow> string" where
  "strip s = rev (dropWhile isspace (rev (dropWhile isspace s)))"

text \<open>
  \<^verbatim>\<open>Element.findall\<close> and \<^verbatim>\<open>Element.find\<close> for the paths the program uses, which
  are all of the form \<^verbatim>\<open>./A/B/C\<close>: a path is the list of its tags, and every step selects
  the children with that tag, in document order.
\<close>

primrec findall_path :: "element \<Rightarrow> string list \<Rightarrow> element list" where
  "findall_path e [] = [e]"
| "findall_path e (t # ts) =
     concat (map (\<lambda>c. findall_path c ts) (filter (\<lambda>c. tag c = t) (children e)))"

definition find_path :: "element \<Rightarrow> string list \<Rightarrow> element option" where
  "find_path e p = (case findall_path e p of [] \<Rightarrow> None | x # _ \<Rightarrow> Some x)"

text \<open>
  The truth value of an optional element, as \<^verbatim>\<open>if not self.projects\<close> takes it:
  \<^verbatim>\<open>None\<close> is false, and so is an element without children.
\<close>

definition truthy :: "element option \<Rightarrow> bool" where
  "truthy x = (case x of None \<Rightarrow> False | Some e \<Rightarrow> children e \<noteq> [])"

text \<open>
  \<^verbatim>\<open>urlopen(url).read()\<close> and \<^verbatim>\<open>ET.fromstring\<close> are not the program's: they are
  parameters. The fetch returns the body, raises an \<^verbatim>\<open>EnvironmentError\<close> (\<^verbatim>\<open>OSError\<close>, of
  which \<^verbatim>\<open>URLError\<close> and the socket errors are subclasses), or raises an exception of
  another class (\<^verbatim>\<open>http.client.IncompleteRead\<close> from \<^verbatim>\<open>read()\<close>, \<^verbatim>\<open>ValueError\<close> for a
  malformed URL). The parser returns the root element, raises \<^verbatim>\<open>ParseError\<close> or
  \<^verbatim>\<open>UnicodeDecodeError\<close>, or raises an exception of another class (\<^verbatim>\<open>LookupError\<close> for
  an unknown encoding, a \<^verbatim>\<open>ValueError\<close> that is not a \<^verbatim>\<open>UnicodeDecodeError\<close> for a
  multi-byte encoding).
\<close>

datatype fetch_outcome = EnvironmentError | OtherFetchError string | Response bytes

datatype parse_outcome = ParseError | UnicodeDecodeError | OtherParseError string | Parsed element

record environment =
  urlopen_read :: "string \<Rightarrow> fetch_outcome"
  fromstring :: "bytes \<Rightarrow> parse_outcome"

section \<open>The program\<close>

text \<open>
  The functions of \<^verbatim>\<open>topology_cacher.py\<close> that fetch, index and join. A function returns
  \<open>Inl\<close> of the exception it raises or \<open>Inr\<close> of its result. A method that changes the
  object takes it and returns it changed, and a loop that logs takes the warnings logged so
  far and returns them with its own appended. The command line, the files written by
  \<^verbatim>\<open>main\<close> and \<^verbatim>\<open>get_resource_info_lookups\<close> (which copies the three indices into
  dictionaries) are not modelled.
\<close>

subsection \<open>Helpers\<close>

text \<open>
  \<^verbatim>\<open>
  def safe_element_text(element: Optional[ET.Element]) -> str:
      return getattr(element, "text", "").strip()
  \<close>
  \<^verbatim>\<open>None\<close> has no attribute \<^verbatim>\<open>text\<close>, so the default \<^verbatim>\<open>""\<close> is stripped. An element has
  the attribute; when its value is \<^verbatim>\<open>None\<close>, \<^verbatim>\<open>None.strip()\<close> raises \<^verbatim>\<open>AttributeError\<close>.
\<close>

definition safe_element_text :: "element option \<Rightarrow> exn + string" where
  "safe_element_text element =
     (case element of
        None \<Rightarrow> Inr (strip [])
      | Some e \<Rightarrow> (case elem_text e of None \<Rightarrow> Inl AttributeError | Some t \<Rightarrow> Inr (strip t)))"

text \<open>\<^verbatim>\<open>map(safe_element_text, ...)\<close>, consumed by \<^verbatim>\<open>list\<close>: the first exception ends it.\<close>

fun map_safe_element_text :: "element list \<Rightarrow> exn + string list" where
  "map_safe_element_text [] = Inr []"
| "map_safe_element_text (e # es) =
     (case safe_element_text (Some e) of
        Inl x \<Rightarrow> Inl x
      | Inr t \<Rightarrow> (case map_safe_element_text es of Inl x \<Rightarrow> Inl x | Inr ts \<Rightarrow> Inr (t # ts)))"

text \<open>
  \<^verbatim>\<open>
  def findall_nonempty(elt, path):
      return list(filter(None, map(safe_element_text, elt.findall(path))))
  \<close>
\<close>

definition findall_nonempty :: "element \<Rightarrow> string list \<Rightarrow> exn + string list" where
  "findall_nonempty elt path =
     (case map_safe_element_text (findall_path elt path) of
        Inl x \<Rightarrow> Inl x
      | Inr ts \<Rightarrow> Inr (filter (\<lambda>t. t \<noteq> []) ts))"

subsection \<open>Fetching a document\<close>

text \<open>
  \<^verbatim>\<open>_get_data\<close>: the three \<^verbatim>\<open>raise DataError(...)\<close> of the source, with their messages,
  and the parsed element otherwise. \<^verbatim>\<open>except EnvironmentError\<close> around the fetch and
  \<^verbatim>\<open>except (ET.ParseError, UnicodeDecodeError)\<close> around the parser are the two places
  where an outcome of the environment becomes a \<^verbatim>\<open>DataError\<close>; an exception of another
  class passes both and leaves the method as it is.
\<close>

definition get_data :: "environment \<Rightarrow> TopologyData \<Rightarrow> string \<Rightarrow> exn + element" where
  "get_data env self endpoint =
     (case urlopen_read env (topology_base self @ endpoint) of
        EnvironmentError \<Rightarrow> Inl (DataError (''Topology query to '' @ endpoint @ '' failed''))
      | OtherFetchError c \<Rightarrow> Inl (Uncaught c)
      | Response xml_bytes \<Rightarrow>
          if xml_bytes = [] then
            Inl (DataError (''Topology query to '' @ endpoint @ '' returned no data''))
          else
            (case fromstring env xml_bytes of
               ParseError \<Rightarrow>
                 Inl (DataError (''Topology query to '' @ endpoint @ '' couldn't be parsed''))
             | UnicodeDecodeError \<Rightarrow>
                 Inl (DataError (''Topology query to '' @ endpoint @ '' couldn't be parsed''))
             | OtherParseError c \<Rightarrow> Inl (Uncaught c)
             | Parsed element \<Rightarrow> Inr element))"

text \<open>\<^verbatim>\<open>update_projects\<close>: \<^verbatim>\<open>self.projects = self._get_data("/miscproject/xml")\<close>.\<close>

definition update_projects :: "environment \<Rightarrow> TopologyData \<Rightarrow> exn + TopologyData" where
  "update_projects env self =
     (case get_data env self ''/miscproject/xml'' of
        Inl x \<Rightarrow> Inl x
      | Inr element \<Rightarrow> Inr (self\<lparr>projects := Some element\<rparr>))"

subsection \<open>Indexing the resource document\<close>

text \<open>
  The inner loop of \<^verbatim>\<open>update_resources\<close>, over the \<^verbatim>\<open>Resource\<close> elements of one group.
  The object and the log are passed through. \<^verbatim>\<open>self.grouped_resinfo[group_name].append\<close>
  looks the key up, which raises \<^verbatim>\<open>KeyError\<close> for a key that is not there.
\<close>

fun resource_loop ::
  "string \<Rightarrow> element list \<Rightarrow> TopologyData \<times> diag list \<Rightarrow> exn + TopologyData \<times> diag list" where
  "resource_loop group_name' [] (self, lg) = Inr (self, lg)"
| "resource_loop group_name' (eResource # rest) (self, lg) =
     (case safe_element_text (find_path eResource [''Name'']) of
        Inl x \<Rightarrow> Inl x
      | Inr resource_name \<Rightarrow>
     (case safe_element_text (find_path eResource [''FQDN'']) of
        Inl x \<Rightarrow> Inl x
      | Inr fqdn' \<Rightarrow>
     (case findall_nonempty eResource [''Services'', ''Service'', ''ID''] of
        Inl x \<Rightarrow> Inl x
      | Inr service_ids' \<Rightarrow>
          if resource_name = [] \<or> fqdn' = [] \<or> service_ids' = [] then
            resource_loop group_name' rest (self, lg @ [MalformedResource eResource])
          else
            (case findall_nonempty eResource [''Tags'', ''Tag''] of
               Inl x \<Rightarrow> Inl x
             | Inr tags' \<Rightarrow>
                 let resinfo = \<lparr>group_name = group_name', name = resource_name, fqdn = fqdn',
                                service_ids = service_ids', tags = tags'\<rparr>
                 in (case grouped_resinfo self group_name' of
                       None \<Rightarrow> Inl KeyError
                     | Some l \<Rightarrow>
                         resource_loop group_name' rest
                           (self\<lparr>resinfo_table := resinfo_table self @ [resinfo],
                                 grouped_resinfo := (grouped_resinfo self)(group_name' \<mapsto> l @ [resinfo]),
                                 resinfo_by_name := (resinfo_by_name self)(resource_name \<mapsto> resinfo),
                                 resinfo_by_fqdn := (resinfo_by_fqdn self)(fqdn' \<mapsto> resinfo)\<rparr>,
                            lg))))))"

text \<open>The outer loop, over the \<^verbatim>\<open>ResourceGroup\<close> elements.\<close>

fun group_loop :: "element list \<Rightarrow> TopologyData \<times> diag list \<Rightarrow> exn + TopologyData \<times> diag list" where
  "group_loop [] (self, lg) = Inr (self, lg)"
| "group_loop (eResourceGroup # rest) (self, lg) =
     (case safe_element_text (find_path eResourceGroup [''GroupName'']) of
        Inl x \<Rightarrow> Inl x
      | Inr group_name' \<Rightarrow>
          if group_name' = [] then
            group_loop rest (self, lg @ [MalformedResourceGroup eResourceGroup])
          else
            (case resource_loop group_name'
                    (findall_path eResourceGroup [''Resources'', ''Resource''])
                    (self\<lparr>grouped_resinfo := (grouped_resinfo self)(group_name' \<mapsto> [])\<rparr>, lg) of
               Inl x \<Rightarrow> Inl x
             | Inr st \<Rightarrow> group_loop rest st))"

text \<open>
  \<^verbatim>\<open>update_resources\<close>: fetch the document, reset the table and the three indices, and
  fill them. It returns the object and the warnings it logged. An exception leaves the
  method; the partly updated object is not kept in the model.
\<close>

definition update_resources ::
  "environment \<Rightarrow> TopologyData \<Rightarrow> exn + TopologyData \<times> diag list" where
  "update_resources env self =
     (case get_data env self ''/rgsummary/xml'' of
        Inl x \<Rightarrow> Inl x
      | Inr element \<Rightarrow>
          group_loop (findall_path element [''ResourceGroup''])
            (self\<lparr>resources := Some element,
                  resinfo_table := [],
                  grouped_resinfo := Map.empty,
                  resinfo_by_name := Map.empty,
                  resinfo_by_fqdn := Map.empty\<rparr>, []))"

subsection \<open>Joining projects and resources\<close>

text \<open>
  The loop over the \<^verbatim>\<open>SubmitResource\<close> elements of an allocation. A \<^verbatim>\<open>ResourceInfo\<close> is a
  tuple of five fields and never false, so \<^verbatim>\<open>not resinfo\<close> holds only for \<^verbatim>\<open>None\<close>.
\<close>

fun submit_loop ::
  "TopologyData \<Rightarrow> element list \<Rightarrow> submit_resource list \<times> diag list \<Rightarrow>
     exn + submit_resource list \<times> diag list" where
  "submit_loop self [] (acc, lg) = Inr (acc, lg)"
| "submit_loop self (eSubmitResource # rest) (acc, lg) =
     (case safe_element_text (Some eSubmitResource) of
        Inl x \<Rightarrow> Inl x
      | Inr key \<Rightarrow>
          (case resinfo_by_name self key of
             None \<Rightarrow> submit_loop self rest (acc, lg @ [MissingSubmitResource eSubmitResource])
           | Some resinfo \<Rightarrow>
               submit_loop self rest
                 (acc @ [\<lparr>sr_fqdn = fqdn resinfo, sr_group_name = group_name resinfo,
                          sr_name = name resinfo\<rparr>], lg)))"

text \<open>The loop over the \<^verbatim>\<open>ExecuteResourceGroup\<close> elements of an allocation.\<close>

fun execute_loop ::
  "TopologyData \<Rightarrow> element list \<Rightarrow> execute_resource_group list \<times> diag list \<Rightarrow>
     exn + execute_resource_group list \<times> diag list" where
  "execute_loop self [] (acc, lg) = Inr (acc, lg)"
| "execute_loop self (eExecuteResourceGroup # rest) (acc, lg) =
     (case safe_element_text (find_path eExecuteResourceGroup [''GroupName'']) of
        Inl x \<Rightarrow> Inl x
      | Inr group_name' \<Rightarrow>
     (case safe_element_text (find_path eExecuteResourceGroup [''LocalAllocationID'']) of
        Inl x \<Rightarrow> Inl x
      | Inr local_allocation_id \<Rightarrow>
          if group_name' = [] \<or> local_allocation_id = [] then
            execute_loop self rest
              (acc, lg @ [MalformedExecuteResourceGroup eExecuteResourceGroup])
          else
            (case grouped_resinfo self group_name' of
               None \<Rightarrow> execute_loop self rest (acc, lg @ [MissingExecuteResourceGroup group_name'])
             | Some resinfo_list \<Rightarrow>
                 if resinfo_list = [] then
                   execute_loop self rest (acc, lg @ [MissingExecuteResourceGroup group_name'])
                 else
                   let ces = map (\<lambda>x. \<lparr>ce_fqdn = fqdn x, ce_name = name x\<rparr>)
                               (filter is_ce resinfo_list)
                   in execute_loop self rest
                        (acc @ [\<lparr>erg_ces = ces, erg_group_name = group_name',
                                 erg_local_allocation_id = local_allocation_id\<rparr>], lg))))"

text \<open>
  The three checks on an allocation, in the order of the source's list: each empty value
  logs a warning with its name.
\<close>

definition missing_warnings ::
  "element \<Rightarrow> string \<Rightarrow> element list \<Rightarrow> element list \<Rightarrow> diag list" where
  "missing_warnings eResourceAllocation atype eExecuteResourceGroup_list eSubmitResource_list =
     (if atype = [] then [AllocationMissing ''Type'' eResourceAllocation] else []) @
     (if eExecuteResourceGroup_list = []
      then [AllocationMissing ''ExecuteResourceGroups'' eResourceAllocation] else []) @
     (if eSubmitResource_list = []
      then [AllocationMissing ''SubmitResources'' eResourceAllocation] else [])"

text \<open>The loop over the \<^verbatim>\<open>ResourceAllocation\<close> elements of a project.\<close>

fun allocation_loop ::
  "TopologyData \<Rightarrow> element list \<Rightarrow> allocation list \<times> diag list \<Rightarrow>
     exn + allocation list \<times> diag list" where
  "allocation_loop self [] (allocations, lg) = Inr (allocations, lg)"
| "allocation_loop self (eResourceAllocation # rest) (allocations, lg) =
     (case safe_element_text (find_path eResourceAllocation [''Type'']) of
        Inl x \<Rightarrow> Inl x
      | Inr atype \<Rightarrow>
          let eExecuteResourceGroup_list =
                findall_path eResourceAllocation [''ExecuteResourceGroups'', ''ExecuteResourceGroup''];
              eSubmitResource_list =
                findall_path eResourceAllocation [''SubmitResources'', ''SubmitResource''];
              lg1 = lg @ missing_warnings eResourceAllocation atype
                         eExecuteResourceGroup_list eSubmitResource_list;
              bad_ra = (atype = [] \<or> eExecuteResourceGroup_list = [] \<or> eSubmitResource_list = [])
          in if bad_ra then allocation_loop self rest (allocations, lg1)
             else
               (case submit_loop self eSubmitResource_list ([], lg1) of
                  Inl x \<Rightarrow> Inl x
                | Inr (submit_resources, lg2) \<Rightarrow>
                    (case execute_loop self eExecuteResourceGroup_list ([], lg2) of
                       Inl x \<Rightarrow> Inl x
                     | Inr (execute_resource_groups, lg3) \<Rightarrow>
                         allocation_loop self rest
                           (allocations @
                              [\<lparr>alloc_type = atype,
                                alloc_submit_resources = submit_resources,
                                alloc_execute_resource_groups = execute_resource_groups\<rparr>],
                            lg3))))"

text \<open>
  The loop over the \<^verbatim>\<open>Project\<close> elements. \<^verbatim>\<open>ret[project_name] = allocations = []\<close> binds
  the key to a new list, which the inner loop then fills in place; the model binds the key
  to the filled list.
\<close>

fun project_loop ::
  "TopologyData \<Rightarrow> element list \<Rightarrow> (string \<rightharpoonup> allocation list) \<times> diag list \<Rightarrow>
     exn + (string \<rightharpoonup> allocation list) \<times> diag list" where
  "project_loop self [] (ret, lg) = Inr (ret, lg)"
| "project_loop self (eProject # rest) (ret, lg) =
     (case safe_element_text (find_path eProject [''Name'']) of
        Inl x \<Rightarrow> Inl x
      | Inr project_name \<Rightarrow>
          if project_name = [] then
            project_loop self rest (ret, lg @ [ProjectMissingName eProject])
          else
            (case allocation_loop self
                    (findall_path eProject [''ResourceAllocations'', ''ResourceAllocation''])
                    ([], lg) of
               Inl x \<Rightarrow> Inl x
             | Inr (allocations, lg') \<Rightarrow>
                 project_loop self rest (ret(project_name \<mapsto> allocations), lg')))"

text \<open>\<^verbatim>\<open>get_project_resource_allocations\<close>: the mapping it returns and the warnings it logs.\<close>

definition get_project_resource_allocations ::
  "TopologyData \<Rightarrow> exn + (string \<rightharpoonup> allocation list) \<times> diag list" where
  "get_project_resource_allocations self =
     (if \<not> truthy (projects self) \<or> \<not> truthy (resources self) then Inr (Map.empty, [])
      else
        (case projects self of
           None \<Rightarrow> Inr (Map.empty, [])
         | Some eProjects \<Rightarrow>
             project_loop self (findall_path eProjects [''Project'']) (Map.empty, [])))"

section \<open>The vocabulary of the specification\<close>

text \<open>
  The claims speak of trimmed texts, well-formed resources, the record of a resource and
  the entries of an allocation. These definitions say what they are for a document; they
  are total, and the theorems below relate the program to them.
\<close>

text \<open>The text of an element that may be missing, trimmed; empty when there is none.\<close>

definition trimmed_text :: "element option \<Rightarrow> string" where
  "trimmed_text x =
     (case x of None \<Rightarrow> [] | Some e \<Rightarrow> (case elem_text e of None \<Rightarrow> [] | Some t \<Rightarrow> strip t))"

definition nonempty_texts :: "element \<Rightarrow> string list \<Rightarrow> string list" where
  "nonempty_texts e p =
     filter (\<lambda>t. t \<noteq> []) (map (\<lambda>c. trimmed_text (Some c)) (findall_path e p))"

definition well_formed_resource :: "element \<Rightarrow> bool" where
  "well_formed_resource e =
     (trimmed_text (find_path e [''Name'']) \<noteq> [] \<and>
      trimmed_text (find_path e [''FQDN'']) \<noteq> [] \<and>
      nonempty_texts e [''Services'', ''Service'', ''ID''] \<noteq> [])"

definition resinfo_of :: "string \<Rightarrow> element \<Rightarrow> ResourceInfo" where
  "resinfo_of g e =
     \<lparr>group_name = g,
      name = trimmed_text (find_path e [''Name'']),
      fqdn = trimmed_text (find_path e [''FQDN'']),
      service_ids = nonempty_texts e [''Services'', ''Service'', ''ID''],
      tags = nonempty_texts e [''Tags'', ''Tag'']\<rparr>"

definition group_name_of :: "element \<Rightarrow> string" where
  "group_name_of g = trimmed_text (find_path g [''GroupName''])"

definition group_records :: "element \<Rightarrow> ResourceInfo list" where
  "group_records g =
     map (resinfo_of (group_name_of g))
       (filter well_formed_resource (findall_path g [''Resources'', ''Resource'']))"

definition named_groups :: "element \<Rightarrow> element list" where
  "named_groups doc = filter (\<lambda>g. group_name_of g \<noteq> []) (findall_path doc [''ResourceGroup''])"

text \<open>
  A mapping in which the last element with a key wins: keys \<open>k x\<close>, values \<open>v x\<close>, for
  the elements \<open>x\<close> of a list in its order.
\<close>

definition last_wins :: "('a \<Rightarrow> 'k) \<Rightarrow> ('a \<Rightarrow> 'v) \<Rightarrow> 'a list \<Rightarrow> ('k \<rightharpoonup> 'v)" where
  "last_wins k v xs = map_of (rev (map (\<lambda>x. (k x, v x)) xs))"

text \<open>The entries of the allocation output.\<close>

definition submit_entry :: "ResourceInfo \<Rightarrow> submit_resource" where
  "submit_entry r = \<lparr>sr_fqdn = fqdn r, sr_group_name = group_name r, sr_name = name r\<rparr>"

definition ce_entry_of :: "ResourceInfo \<Rightarrow> ce_entry" where
  "ce_entry_of r = \<lparr>ce_fqdn = fqdn r, ce_name = name r\<rparr>"

definition resolved_submit_resources :: "TopologyData \<Rightarrow> element list \<Rightarrow> submit_resource list" where
  "resolved_submit_resources s es =
     map submit_entry (List.map_filter (\<lambda>e. resinfo_by_name s (trimmed_text (Some e))) es)"

definition execute_group_entry :: "TopologyData \<Rightarrow> element \<Rightarrow> execute_resource_group option" where
  "execute_group_entry s e =
     (let g = trimmed_text (find_path e [''GroupName'']);
          a = trimmed_text (find_path e [''LocalAllocationID''])
      in if g = [] \<or> a = [] then None
         else (case grouped_resinfo s g of
                 None \<Rightarrow> None
               | Some rl \<Rightarrow>
                   if rl = [] then None
                   else Some \<lparr>erg_ces = map ce_entry_of (filter is_ce rl), erg_group_name = g,
                              erg_local_allocation_id = a\<rparr>))"

definition allocation_type_of :: "element \<Rightarrow> string" where
  "allocation_type_of ra = trimmed_text (find_path ra [''Type''])"

definition execute_group_elements :: "element \<Rightarrow> element list" where
  "execute_group_elements ra = findall_path ra [''ExecuteResourceGroups'', ''ExecuteResourceGroup'']"

definition submit_elements :: "element \<Rightarrow> element list" where
  "submit_elements ra = findall_path ra [''SubmitResources'', ''SubmitResource'']"

definition allocation_present :: "element \<Rightarrow> bool" where
  "allocation_present ra =
     (allocation_type_of ra \<noteq> [] \<and> execute_group_elements ra \<noteq> [] \<and> submit_elements ra \<noteq> [])"

definition allocation_entry :: "TopologyData \<Rightarrow> element \<Rightarrow> allocation" where
  "allocation_entry s ra =
     \<lparr>alloc_type = allocation_type_of ra,
      alloc_submit_resources = resolved_submit_resources s (submit_elements ra),
      alloc_execute_resource_groups =
        List.map_filter (execute_group_entry s) (execute_group_elements ra)\<rparr>"

definition project_name_of :: "element \<Rightarrow> string" where
  "project_name_of p = trimmed_text (find_path p [''Name''])"

definition allocation_elements :: "element \<Rightarrow> element list" where
  "allocation_elements p = findall_path p [''ResourceAllocations'', ''ResourceAllocation'']"

definition project_allocations :: "TopologyData \<Rightarrow> element \<Rightarrow> allocation list" where
  "project_allocations s p =
     map (allocation_entry s) (filter allocation_present (allocation_elements p))"

definition named_projects :: "element \<Rightarrow> element list" where
  "named_projects doc = filter (\<lambda>p. project_name_of p \<noteq> []) (findall_path doc [''Project''])"

text \<open>
  The elements whose text the program reads. \<^verbatim>\<open>safe_element_text\<close> returns for a missing
  element and for an element with a text, so a document is readable when every element the
  loops hand to it has one: the names and IDs of a group and of its resources (the tags
  only of a well-formed resource), and the names, types and references of the projects (the
  references only of an allocation that passes the check).
\<close>

definition has_text :: "element option \<Rightarrow> bool" where
  "has_text x = (case x of None \<Rightarrow> True | Some e \<Rightarrow> elem_text e \<noteq> None)"

definition all_have_text :: "element list \<Rightarrow> bool" where
  "all_have_text es = list_all (\<lambda>e. elem_text e \<noteq> None) es"

definition resource_readable :: "element \<Rightarrow> bool" where
  "resource_readable e =
     (has_text (find_path e [''Name'']) \<and> has_text (find_path e [''FQDN'']) \<and>
      all_have_text (findall_path e [''Services'', ''Service'', ''ID'']) \<and>
      (if well_formed_resource e then all_have_text (findall_path e [''Tags'', ''Tag'']) else True))"

definition group_readable :: "element \<Rightarrow> bool" where
  "group_readable g =
     (has_text (find_path g [''GroupName'']) \<and>
      (if group_name_of g = [] then True
       else list_all resource_readable (findall_path g [''Resources'', ''Resource''])))"

definition execute_group_readable :: "element \<Rightarrow> bool" where
  "execute_group_readable e =
     (has_text (find_path e [''GroupName'']) \<and> has_text (find_path e [''LocalAllocationID'']))"

definition allocation_readable :: "element \<Rightarrow> bool" where
  "allocation_readable ra =
     (has_text (find_path ra [''Type'']) \<and>
      (if allocation_present ra
       then all_have_text (submit_elements ra) \<and>
            list_all execute_group_readable (execute_group_elements ra)
       else True))"

definition project_readable :: "element \<Rightarrow> bool" where
  "project_readable p =
     (has_text (find_path p [''Name'']) \<and>
      (if project_name_of p = [] then True
       else list_all allocation_readable (allocation_elements p)))"

section \<open>Example inputs\<close>

text \<open>An environment whose two endpoints answer with the given documents.\<close>

definition env_of :: "element \<Rightarrow> element \<Rightarrow> environment" where
  "env_of project_doc resource_doc =
     \<lparr>urlopen_read = (\<lambda>url. if url = ''https://t/miscproject/xml'' then Response ''p''
                             else if url = ''https://t/rgsummary/xml'' then Response ''r''
                             else EnvironmentError),
      fromstring = (\<lambda>b. if b = ''p'' then Parsed project_doc
                          else if b = ''r'' then Parsed resource_doc
                          else ParseError)\<rparr>"

text \<open>The object as \<^verbatim>\<open>__init__\<close> has it before the first fetch.\<close>

definition fresh :: TopologyData where
  "fresh = \<lparr>topology_base = ''https://t'', resinfo_table = [], grouped_resinfo = Map.empty,
     resinfo_by_name = Map.empty, resinfo_by_fqdn = Map.empty, projects = None,
     resources = None\<rparr>"

text \<open>
  \<^verbatim>\<open><ResourceSummary><ResourceGroup><GroupName/></ResourceGroup></ResourceSummary>\<close>:
  a group whose name element is there and empty.
\<close>

definition empty_name_doc :: element where
  "empty_name_doc =
     Element ''ResourceSummary'' None
       [Element ''ResourceGroup'' None [Element ''GroupName'' None []]]"

definition no_projects_doc :: element where
  "no_projects_doc = Element ''Projects'' None []"

text \<open>
  A resource document with one named group (a compute entrypoint, a resource whose name is
  blank, and a Schedd-only resource whose name has a leading space) and one group without
  a name; and what indexing it gives.
\<close>

definition leaf :: "string \<Rightarrow> string \<Rightarrow> element" where
  "leaf t s = Element t (Some s) []"

definition node :: "string \<Rightarrow> element list \<Rightarrow> element" where
  "node t cs = Element t None cs"

definition resource_elem :: "string \<Rightarrow> string \<Rightarrow> string \<Rightarrow> element" where
  "resource_elem n f sid =
     node ''Resource'' [leaf ''Name'' n, leaf ''FQDN'' f,
       node ''Services'' [node ''Service'' [leaf ''ID'' sid]]]"

definition ce1_elem :: element where
  "ce1_elem = resource_elem ''ce1'' ''ce1.example.net'' ''1''"

definition blank_elem :: element where
  "blank_elem = resource_elem '' '' ''x.example.net'' ''1''"

definition ap1_elem :: element where
  "ap1_elem = resource_elem '' ap1'' ''ap1.example.net'' ''109''"

definition groupA_elem :: element where
  "groupA_elem = node ''ResourceGroup''
     [leaf ''GroupName'' ''GroupA'', node ''Resources'' [ce1_elem, blank_elem, ap1_elem]]"

definition nameless_group_elem :: element where
  "nameless_group_elem = node ''ResourceGroup''
     [node ''Resources'' [resource_elem ''ce2'' ''ce2.example.net'' ''1'']]"

definition example_resources :: element where
  "example_resources = node ''ResourceSummary'' [groupA_elem, nameless_group_elem]"

definition ce1 :: ResourceInfo where
  "ce1 = \<lparr>group_name = ''GroupA'', name = ''ce1'', fqdn = ''ce1.example.net'',
           service_ids = [''1''], tags = []\<rparr>"

definition ap1 :: ResourceInfo where
  "ap1 = \<lparr>group_name = ''GroupA'', name = ''ap1'', fqdn = ''ap1.example.net'',
           service_ids = [''109''], tags = []\<rparr>"

definition example_indexed :: TopologyData where
  "example_indexed =
     \<lparr>topology_base = ''https://t'',
      resinfo_table = [ce1, ap1],
      grouped_resinfo = [''GroupA'' \<mapsto> [ce1, ap1]],
      resinfo_by_name = [''ce1'' \<mapsto> ce1, ''ap1'' \<mapsto> ap1],
      resinfo_by_fqdn = [''ce1.example.net'' \<mapsto> ce1, ''ap1.example.net'' \<mapsto> ap1],
      projects = None,
      resources = Some example_resources\<rparr>"

definition example_warnings :: "diag list" where
  "example_warnings = [MalformedResource blank_elem, MalformedResourceGroup nameless_group_elem]"

text \<open>
  A resource document with two groups of the same name, whose resources have the same name
  and different FQDNs; and what indexing it gives.
\<close>

definition twin_group1_elem :: element where
  "twin_group1_elem = node ''ResourceGroup''
     [leaf ''GroupName'' ''G'', node ''Resources'' [resource_elem ''n'' ''f1'' ''1'']]"

definition twin_group2_elem :: element where
  "twin_group2_elem = node ''ResourceGroup''
     [leaf ''GroupName'' ''G'', node ''Resources'' [resource_elem ''n'' ''f2'' ''1'']]"

definition twin_groups_doc :: element where
  "twin_groups_doc = node ''ResourceSummary'' [twin_group1_elem, twin_group2_elem]"

definition twin1 :: ResourceInfo where
  "twin1 = \<lparr>group_name = ''G'', name = ''n'', fqdn = ''f1'', service_ids = [''1''], tags = []\<rparr>"

definition twin2 :: ResourceInfo where
  "twin2 = \<lparr>group_name = ''G'', name = ''n'', fqdn = ''f2'', service_ids = [''1''], tags = []\<rparr>"

definition twin_groups_indexed :: TopologyData where
  "twin_groups_indexed =
     \<lparr>topology_base = ''https://t'',
      resinfo_table = [twin1, twin2],
      grouped_resinfo = [''G'' \<mapsto> [twin2]],
      resinfo_by_name = [''n'' \<mapsto> twin2],
      resinfo_by_fqdn = [''f1'' \<mapsto> twin1, ''f2'' \<mapsto> twin2],
      projects = None,
      resources = Some twin_groups_doc\<rparr>"

text \<open>
  A project document with two projects of the same name and one without a name. The later
  of the two has an allocation without a type, one with a submit resource and an execute
  group that do not resolve, and one whose only submit resource does not resolve. Then the
  object that holds both documents, and what joining them gives.
\<close>

definition execute_group_elem :: "string \<Rightarrow> string \<Rightarrow> element" where
  "execute_group_elem g a =
     node ''ExecuteResourceGroup'' [leaf ''GroupName'' g, leaf ''LocalAllocationID'' a]"

definition nowhere_elem :: element where
  "nowhere_elem = leaf ''SubmitResource'' ''nowhere''"

definition old_allocation_elem :: element where
  "old_allocation_elem = node ''ResourceAllocation''
     [leaf ''Type'' ''Old'',
      node ''ExecuteResourceGroups'' [execute_group_elem ''GroupA'' ''7''],
      node ''SubmitResources'' [leaf ''SubmitResource'' ''ce1'']]"

definition untyped_allocation_elem :: element where
  "untyped_allocation_elem = node ''ResourceAllocation''
     [node ''ExecuteResourceGroups'' [execute_group_elem ''GroupA'' ''1''],
      node ''SubmitResources'' [leaf ''SubmitResource'' ''ap1'']]"

definition hosted_allocation_elem :: element where
  "hosted_allocation_elem = node ''ResourceAllocation''
     [leaf ''Type'' ''Hosted Compute'',
      node ''ExecuteResourceGroups''
        [execute_group_elem ''GroupA'' ''1'', execute_group_elem ''GroupB'' ''2''],
      node ''SubmitResources'' [leaf ''SubmitResource'' '' ap1 '', nowhere_elem]]"

definition other_allocation_elem :: element where
  "other_allocation_elem = node ''ResourceAllocation''
     [leaf ''Type'' ''Other'',
      node ''ExecuteResourceGroups'' [execute_group_elem ''GroupA'' ''3''],
      node ''SubmitResources'' [nowhere_elem]]"

definition earlier_project_elem :: element where
  "earlier_project_elem = node ''Project''
     [leaf ''Name'' ''ProjA'', node ''ResourceAllocations'' [old_allocation_elem]]"

definition later_project_elem :: element where
  "later_project_elem = node ''Project''
     [leaf ''Name'' ''ProjA'',
      node ''ResourceAllocations''
        [untyped_allocation_elem, hosted_allocation_elem, other_allocation_elem]]"

definition nameless_project_elem :: element where
  "nameless_project_elem = node ''Project''
     [node ''ResourceAllocations'' [old_allocation_elem]]"

definition example_projects :: element where
  "example_projects =
     node ''Projects'' [earlier_project_elem, later_project_elem, nameless_project_elem]"

definition example_state :: TopologyData where
  "example_state = example_indexed\<lparr>projects := Some example_projects\<rparr>"

definition hosted_allocation :: allocation where
  "hosted_allocation =
     \<lparr>alloc_type = ''Hosted Compute'',
      alloc_submit_resources =
        [\<lparr>sr_fqdn = ''ap1.example.net'', sr_group_name = ''GroupA'', sr_name = ''ap1''\<rparr>],
      alloc_execute_resource_groups =
        [\<lparr>erg_ces = [\<lparr>ce_fqdn = ''ce1.example.net'', ce_name = ''ce1''\<rparr>],
          erg_group_name = ''GroupA'', erg_local_allocation_id = ''1''\<rparr>]\<rparr>"

definition other_allocation :: allocation where
  "other_allocation =
     \<lparr>alloc_type = ''Other'',
      alloc_submit_resources = [],
      alloc_execute_resource_groups =
        [\<lparr>erg_ces = [\<lparr>ce_fqdn = ''ce1.example.net'', ce_name = ''ce1''\<rparr>],
          erg_group_name = ''GroupA'', erg_local_allocation_id = ''3''\<rparr>]\<rparr>"

definition example_join_warnings :: "diag list" where
  "example_join_warnings =
     [AllocationMissing ''Type'' untyped_allocation_elem,
      MissingSubmitResource nowhere_elem,
      MissingExecuteResourceGroup ''GroupB'',
      MissingSubmitResource nowhere_elem,
      ProjectMissingName nameless_project_elem]"

definition hosted_execute_group :: execute_resource_group where
  "hosted_execute_group =
     \<lparr>erg_ces = [\<lparr>ce_fqdn = ''ce1.example.net'', ce_name = ''ce1''\<rparr>],
      erg_group_name = ''GroupA'', erg_local_allocation_id = ''1''\<rparr>"

definition childless_projects_state :: TopologyData where
  "childless_projects_state = example_indexed\<lparr>projects := Some no_projects_doc\<rparr>"

text \<open>
  A project document whose only project has no name and one allocation that passes the
  check, with a submit resource that does not resolve; and the object that holds it.
\<close>

definition unnamed_project_elem :: element where
  "unnamed_project_elem = node ''Project'' [node ''ResourceAllocations'' [other_allocation_elem]]"

definition unnamed_projects_doc :: element where
  "unnamed_projects_doc = node ''Projects'' [unnamed_project_elem]"

definition unnamed_projects_state :: TopologyData where
  "unnamed_projects_state = example_indexed\<lparr>projects := Some unnamed_projects_doc\<rparr>"

text \<open>
  The object after fetching the example projects and a resource document whose root has no
  children, \<^verbatim>\<open><ResourceSummary/>\<close>.
\<close>

definition no_resources_doc :: element where
  "no_resources_doc = Element ''ResourceSummary'' None []"

definition childless_resources_state :: TopologyData where
  "childless_resources_state =
     fresh\<lparr>projects := Some example_projects, resources := Some no_resources_doc\<rparr>"

text \<open>
  Two project documents with an element that is there and empty: an allocation whose type
  is \<^verbatim>\<open><Type/>\<close>, and an allocation whose only submit resource is \<^verbatim>\<open><SubmitResource/>\<close>.
\<close>

definition empty_type_projects_doc :: element where
  "empty_type_projects_doc = node ''Projects''
     [node ''Project''
        [leaf ''Name'' ''ProjA'',
         node ''ResourceAllocations''
           [node ''ResourceAllocation''
              [Element ''Type'' None [],
               node ''ExecuteResourceGroups'' [execute_group_elem ''GroupA'' ''1''],
               node ''SubmitResources'' [leaf ''SubmitResource'' ''ce1'']]]]]"

definition empty_submit_projects_doc :: element where
  "empty_submit_projects_doc = node ''Projects''
     [node ''Project''
        [leaf ''Name'' ''ProjA'',
         node ''ResourceAllocations''
           [node ''ResourceAllocation''
              [leaf ''Type'' ''Other'',
               node ''ExecuteResourceGroups'' [execute_group_elem ''GroupA'' ''1''],
               node ''SubmitResources'' [Element ''SubmitResource'' None []]]]]]"

text \<open>
  Two environments in which a library call raises an exception that \<^verbatim>\<open>_get_data\<close> does
  not catch: \<^verbatim>\<open>read()\<close> on a connection that closes early, and the parser on a body that
  declares an encoding Python does not know.
\<close>

definition incomplete_read_env :: environment where
  "incomplete_read_env =
     \<lparr>urlopen_read = (\<lambda>url. OtherFetchError ''http.client.IncompleteRead''),
      fromstring = (\<lambda>b. ParseError)\<rparr>"

definition unknown_encoding_env :: environment where
  "unknown_encoding_env =
     \<lparr>urlopen_read = (\<lambda>url. Response ''b''),
      fromstring = (\<lambda>b. OtherParseError ''LookupError'')\<rparr>"

section \<open>Trimmed texts and last-wins mappings\<close>

lemma strip_Nil [simp]: "strip [] = []"
  by (simp add: strip_def)

lemma safe_element_text_Inr:
  "safe_element_text x = Inr t \<Longrightarrow> t = trimmed_text x"
  by (auto simp: safe_element_text_def trimmed_text_def split: option.splits)

lemma map_safe_element_text_Inr:
  "map_safe_element_text es = Inr ts \<Longrightarrow> ts = map (\<lambda>c. trimmed_text (Some c)) es"
  by (induction es arbitrary: ts) (auto split: sum.splits dest: safe_element_text_Inr)

lemma findall_nonempty_Inr:
  "findall_nonempty e p = Inr ts \<Longrightarrow> ts = nonempty_texts e p"
  by (auto simp: findall_nonempty_def nonempty_texts_def split: sum.splits
      dest: map_safe_element_text_Inr)

lemma last_wins_Nil [simp]: "last_wins k v [] = Map.empty"
  by (simp add: last_wins_def)

lemma last_wins_Cons: "m ++ last_wins k v (x # xs) = m(k x \<mapsto> v x) ++ last_wins k v xs"
  by (simp add: last_wins_def)

lemma last_wins_append: "last_wins k v (xs @ ys) = last_wins k v xs ++ last_wins k v ys"
  by (simp add: last_wins_def)

lemma last_wins_eq_None: "last_wins k v xs a = None \<longleftrightarrow> a \<notin> k ` set xs"
  by (simp add: last_wins_def map_of_eq_None_iff image_image)

lemma dom_last_wins: "dom (last_wins k v xs) = k ` set xs"
  by (auto simp: dom_def last_wins_eq_None)

lemma last_wins_SomeD: "last_wins k v xs a = Some b \<Longrightarrow> \<exists>x\<in>set xs. k x = a \<and> v x = b"
  by (auto simp: last_wins_def dest!: map_of_SomeD)

lemma last_wins_last:
  "k x \<notin> k ` set post \<Longrightarrow> last_wins k v (pre @ x # post) (k x) = Some (v x)"
proof -
  assume "k x \<notin> k ` set post"
  then have "last_wins k v post (k x) = None"
    by (simp add: last_wins_eq_None)
  moreover have "last_wins k v (pre @ x # post) = (last_wins k v pre)(k x \<mapsto> v x) ++ last_wins k v post"
    by (simp add: last_wins_append last_wins_Cons)
  ultimately show ?thesis
    by (simp add: map_add_def)
qed

section \<open>What the indexing loops compute\<close>

lemma resource_loop_Inr:
  "resource_loop g es (s, lg) = Inr (s', lg') \<Longrightarrow> grouped_resinfo s g = Some l \<Longrightarrow>
   resinfo_table s' = resinfo_table s @ map (resinfo_of g) (filter well_formed_resource es) \<and>
   grouped_resinfo s' = (grouped_resinfo s)(g \<mapsto> l @ map (resinfo_of g) (filter well_formed_resource es)) \<and>
   resinfo_by_name s' = resinfo_by_name s ++ last_wins name (\<lambda>r. r) (map (resinfo_of g) (filter well_formed_resource es)) \<and>
   resinfo_by_fqdn s' = resinfo_by_fqdn s ++ last_wins fqdn (\<lambda>r. r) (map (resinfo_of g) (filter well_formed_resource es)) \<and>
   topology_base s' = topology_base s \<and> projects s' = projects s \<and> resources s' = resources s"
proof (induction es arbitrary: s lg l)
  case Nil
  then show ?case by (simp add: map_upd_triv)
next
  case (Cons e es)
  from Cons.prems(1) obtain rn fq sids where
    rn: "safe_element_text (find_path e [''Name'']) = Inr rn" and
    fq: "safe_element_text (find_path e [''FQDN'']) = Inr fq" and
    sids: "findall_nonempty e [''Services'', ''Service'', ''ID''] = Inr sids"
    by (auto split: sum.splits)
  note vals = safe_element_text_Inr[OF rn] safe_element_text_Inr[OF fq] findall_nonempty_Inr[OF sids]
  show ?case
  proof (cases "rn = [] \<or> fq = [] \<or> sids = []")
    case True
    with vals have nwf: "\<not> well_formed_resource e"
      by (auto simp: well_formed_resource_def)
    from Cons.prems(1) rn fq sids True
    have "resource_loop g es (s, lg @ [MalformedResource e]) = Inr (s', lg')"
      by (simp split: if_splits)
    from Cons.IH[OF this Cons.prems(2)] nwf show ?thesis by simp
  next
    case False
    with vals have wf: "well_formed_resource e"
      by (auto simp: well_formed_resource_def)
    from Cons.prems(1) rn fq sids False obtain tg where
      tg: "findall_nonempty e [''Tags'', ''Tag''] = Inr tg"
      by (auto split: sum.splits)
    have r: "\<lparr>group_name = g, name = rn, fqdn = fq, service_ids = sids, tags = tg\<rparr> = resinfo_of g e"
      using vals findall_nonempty_Inr[OF tg] by (simp add: resinfo_of_def)
    let ?r = "resinfo_of g e"
    let ?s1 = "s\<lparr>resinfo_table := resinfo_table s @ [?r],
                   grouped_resinfo := (grouped_resinfo s)(g \<mapsto> l @ [?r]),
                   resinfo_by_name := (resinfo_by_name s)(rn \<mapsto> ?r),
                   resinfo_by_fqdn := (resinfo_by_fqdn s)(fq \<mapsto> ?r)\<rparr>"
    from Cons.prems rn fq sids False tg r
    have step: "resource_loop g es (?s1, lg) = Inr (s', lg')"
      by (simp add: Let_def)
    have g1: "grouped_resinfo ?s1 g = Some (l @ [?r])" by simp
    have nm: "rn = name ?r" "fq = fqdn ?r"
      using vals by (simp_all add: resinfo_of_def)
    have sel: "resinfo_table ?s1 = resinfo_table s @ [?r]"
      "grouped_resinfo ?s1 = (grouped_resinfo s)(g \<mapsto> l @ [?r])"
      "resinfo_by_name ?s1 = (resinfo_by_name s)(rn \<mapsto> ?r)"
      "resinfo_by_fqdn ?s1 = (resinfo_by_fqdn s)(fq \<mapsto> ?r)"
      "topology_base ?s1 = topology_base s" "projects ?s1 = projects s"
      "resources ?s1 = resources s"
      by simp_all
    note IH = Cons.IH[OF step g1, unfolded sel]
    from IH wf show ?thesis
      by (simp add: last_wins_Cons nm del: fun_upd_apply)
  qed
qed


lemma group_loop_Inr:
  "group_loop gs (s, lg) = Inr (s', lg') \<Longrightarrow>
   resinfo_table s' =
     resinfo_table s @ concat (map group_records (filter (\<lambda>g. group_name_of g \<noteq> []) gs)) \<and>
   grouped_resinfo s' =
     grouped_resinfo s ++
       last_wins group_name_of group_records (filter (\<lambda>g. group_name_of g \<noteq> []) gs) \<and>
   resinfo_by_name s' =
     resinfo_by_name s ++
       last_wins name (\<lambda>r. r) (concat (map group_records (filter (\<lambda>g. group_name_of g \<noteq> []) gs))) \<and>
   resinfo_by_fqdn s' =
     resinfo_by_fqdn s ++
       last_wins fqdn (\<lambda>r. r) (concat (map group_records (filter (\<lambda>g. group_name_of g \<noteq> []) gs))) \<and>
   topology_base s' = topology_base s \<and> projects s' = projects s \<and> resources s' = resources s"
proof (induction gs arbitrary: s lg)
  case Nil
  then show ?case by simp
next
  case (Cons e gs)
  from Cons.prems obtain gn where
    gn: "safe_element_text (find_path e [''GroupName'']) = Inr gn"
    by (auto split: sum.splits)
  have gn_eq: "gn = group_name_of e"
    using safe_element_text_Inr[OF gn] by (simp add: group_name_of_def)
  show ?case
  proof (cases "gn = []")
    case True
    with Cons.prems gn
    have "group_loop gs (s, lg @ [MalformedResourceGroup e]) = Inr (s', lg')"
      by simp
    from Cons.IH[OF this] True gn_eq show ?thesis by simp
  next
    case False
    let ?s0 = "s\<lparr>grouped_resinfo := (grouped_resinfo s)(gn \<mapsto> [])\<rparr>"
    from Cons.prems gn False obtain s1 lg1 where
      inner: "resource_loop gn (findall_path e [''Resources'', ''Resource'']) (?s0, lg) = Inr (s1, lg1)" and
      rest: "group_loop gs (s1, lg1) = Inr (s', lg')"
      by (auto split: sum.splits)
    have g0: "grouped_resinfo ?s0 gn = Some []" by simp
    have sel: "resinfo_table ?s0 = resinfo_table s"
      "grouped_resinfo ?s0 = (grouped_resinfo s)(gn \<mapsto> [])"
      "resinfo_by_name ?s0 = resinfo_by_name s"
      "resinfo_by_fqdn ?s0 = resinfo_by_fqdn s"
      "topology_base ?s0 = topology_base s" "projects ?s0 = projects s"
      "resources ?s0 = resources s"
      by simp_all
    have R': "resinfo_table s1 = resinfo_table s @ group_records e"
      "grouped_resinfo s1 = (grouped_resinfo s)(gn \<mapsto> group_records e)"
      "resinfo_by_name s1 = resinfo_by_name s ++ last_wins name (\<lambda>r. r) (group_records e)"
      "resinfo_by_fqdn s1 = resinfo_by_fqdn s ++ last_wins fqdn (\<lambda>r. r) (group_records e)"
      "topology_base s1 = topology_base s" "projects s1 = projects s" "resources s1 = resources s"
      using resource_loop_Inr[OF inner g0]
      by (simp_all add: group_records_def gn_eq del: fun_upd_apply)
    from Cons.IH[OF rest] False gn_eq show ?thesis
      by (simp add: R' last_wins_append last_wins_Cons del: fun_upd_apply)
  qed
qed


lemma update_resources_Inr:
  assumes "update_resources env s = Inr (s', lg)"
  shows "\<exists>doc. get_data env s ''/rgsummary/xml'' = Inr doc \<and> resources s' = Some doc \<and>
     resinfo_table s' = concat (map group_records (named_groups doc)) \<and>
     grouped_resinfo s' = last_wins group_name_of group_records (named_groups doc) \<and>
     resinfo_by_name s' = last_wins name (\<lambda>r. r) (resinfo_table s') \<and>
     resinfo_by_fqdn s' = last_wins fqdn (\<lambda>r. r) (resinfo_table s') \<and>
     topology_base s' = topology_base s \<and> projects s' = projects s"
proof -
  from assms obtain doc where
    doc: "get_data env s ''/rgsummary/xml'' = Inr doc" and
    loop: "group_loop (findall_path doc [''ResourceGroup''])
             (s\<lparr>resources := Some doc, resinfo_table := [], grouped_resinfo := Map.empty,
                 resinfo_by_name := Map.empty, resinfo_by_fqdn := Map.empty\<rparr>, []) = Inr (s', lg)"
    by (auto simp: update_resources_def split: sum.splits)
  from group_loop_Inr[OF loop] doc show ?thesis
    by (simp add: named_groups_def)
qed

section \<open>What the joining loops compute\<close>

lemma submit_loop_Inr:
  "submit_loop s es (acc, lg) = Inr (acc', lg') \<Longrightarrow> acc' = acc @ resolved_submit_resources s es"
proof (induction es arbitrary: acc lg)
  case Nil
  then show ?case by (simp add: resolved_submit_resources_def)
next
  case (Cons e es)
  from Cons.prems obtain key where
    key: "safe_element_text (Some e) = Inr key"
    by (auto split: sum.splits)
  note k = safe_element_text_Inr[OF key]
  show ?case
  proof (cases "resinfo_by_name s key")
    case None
    with Cons.prems key
    have "submit_loop s es (acc, lg @ [MissingSubmitResource e]) = Inr (acc', lg')"
      by simp
    from Cons.IH[OF this] None k show ?thesis
      by (simp add: resolved_submit_resources_def)
  next
    case (Some r)
    with Cons.prems key
    have "submit_loop s es (acc @ [submit_entry r], lg) = Inr (acc', lg')"
      by (simp add: submit_entry_def)
    from Cons.IH[OF this] Some k show ?thesis
      by (simp add: resolved_submit_resources_def)
  qed
qed

lemma execute_loop_Inr:
  "execute_loop s es (acc, lg) = Inr (acc', lg') \<Longrightarrow>
   acc' = acc @ List.map_filter (execute_group_entry s) es"
proof (induction es arbitrary: acc lg)
  case Nil
  then show ?case by simp
next
  case (Cons e es)
  from Cons.prems obtain g a where
    g: "safe_element_text (find_path e [''GroupName'']) = Inr g" and
    a: "safe_element_text (find_path e [''LocalAllocationID'']) = Inr a"
    by (auto split: sum.splits)
  note vals = safe_element_text_Inr[OF g] safe_element_text_Inr[OF a]
  show ?case
  proof (cases "execute_group_entry s e")
    case None
    with vals have skip: "g = [] \<or> a = [] \<or> grouped_resinfo s g = None \<or> grouped_resinfo s g = Some []"
      by (auto simp: execute_group_entry_def Let_def split: if_splits option.splits)
    with Cons.prems g a obtain w where
      "execute_loop s es (acc, lg @ [w]) = Inr (acc', lg')"
      by (auto split: if_splits option.splits)
    from Cons.IH[OF this] None show ?thesis by simp
  next
    case (Some x)
    with vals obtain rl where
      ok: "g \<noteq> []" "a \<noteq> []" "grouped_resinfo s g = Some rl" "rl \<noteq> []" and
      x: "x = \<lparr>erg_ces = map ce_entry_of (filter is_ce rl), erg_group_name = g,
                erg_local_allocation_id = a\<rparr>"
      by (auto simp: execute_group_entry_def Let_def split: if_splits option.splits)
    have "(\<lambda>r. \<lparr>ce_fqdn = fqdn r, ce_name = name r\<rparr>) = ce_entry_of"
      by (simp add: fun_eq_iff ce_entry_of_def)
    with ok x Cons.prems g a
    have "execute_loop s es (acc @ [x], lg) = Inr (acc', lg')"
      by (simp add: Let_def)
    from Cons.IH[OF this] Some show ?thesis by simp
  qed
qed

lemma allocation_loop_Inr:
  "allocation_loop s ras (acc, lg) = Inr (acc', lg') \<Longrightarrow>
   acc' = acc @ map (allocation_entry s) (filter allocation_present ras)"
proof (induction ras arbitrary: acc lg)
  case Nil
  then show ?case by simp
next
  case (Cons ra ras)
  from Cons.prems obtain ty where
    ty: "safe_element_text (find_path ra [''Type'']) = Inr ty"
    by (auto split: sum.splits)
  have ty_eq: "ty = allocation_type_of ra"
    using safe_element_text_Inr[OF ty] by (simp add: allocation_type_of_def)
  let ?lg1 = "lg @ missing_warnings ra ty (execute_group_elements ra) (submit_elements ra)"
  show ?case
  proof (cases "allocation_present ra")
    case False
    with ty_eq have bad: "ty = [] \<or> execute_group_elements ra = [] \<or> submit_elements ra = []"
      by (auto simp: allocation_present_def)
    with Cons.prems ty
    have "allocation_loop s ras (acc, ?lg1) = Inr (acc', lg')"
      by (simp add: Let_def execute_group_elements_def submit_elements_def
          del: findall_path.simps)
    from Cons.IH[OF this] False show ?thesis by simp
  next
    case True
    with ty_eq have good: "\<not> (ty = [] \<or> execute_group_elements ra = [] \<or> submit_elements ra = [])"
      by (auto simp: allocation_present_def)
    with Cons.prems ty obtain subs lg2 exs lg3 where
      subs: "submit_loop s (submit_elements ra) ([], ?lg1) = Inr (subs, lg2)" and
      exs: "execute_loop s (execute_group_elements ra) ([], lg2) = Inr (exs, lg3)" and
      rest: "allocation_loop s ras
               (acc @ [\<lparr>alloc_type = ty, alloc_submit_resources = subs,
                          alloc_execute_resource_groups = exs\<rparr>], lg3) = Inr (acc', lg')"
      by (auto simp: Let_def execute_group_elements_def submit_elements_def
          simp del: findall_path.simps split: sum.splits)
    have entry: "\<lparr>alloc_type = ty, alloc_submit_resources = subs,
                   alloc_execute_resource_groups = exs\<rparr> = allocation_entry s ra"
      using submit_loop_Inr[OF subs] execute_loop_Inr[OF exs] ty_eq
      by (simp add: allocation_entry_def)
    from Cons.IH[OF rest] True entry show ?thesis by simp
  qed
qed

lemma project_loop_Inr:
  "project_loop s ps (ret, lg) = Inr (ret', lg') \<Longrightarrow>
   ret' = ret ++ last_wins project_name_of (project_allocations s)
                   (filter (\<lambda>p. project_name_of p \<noteq> []) ps)"
proof (induction ps arbitrary: ret lg)
  case Nil
  then show ?case by simp
next
  case (Cons p ps)
  from Cons.prems obtain pn where
    pn: "safe_element_text (find_path p [''Name'']) = Inr pn"
    by (auto split: sum.splits)
  have pn_eq: "pn = project_name_of p"
    using safe_element_text_Inr[OF pn] by (simp add: project_name_of_def)
  show ?case
  proof (cases "pn = []")
    case True
    with Cons.prems pn
    have "project_loop s ps (ret, lg @ [ProjectMissingName p]) = Inr (ret', lg')"
      by simp
    from Cons.IH[OF this] True pn_eq show ?thesis by simp
  next
    case False
    with Cons.prems pn obtain allocs lg1 where
      inner: "allocation_loop s (allocation_elements p) ([], lg) = Inr (allocs, lg1)" and
      rest: "project_loop s ps (ret(pn \<mapsto> allocs), lg1) = Inr (ret', lg')"
      by (auto simp: allocation_elements_def split: sum.splits)
    have "allocs = project_allocations s p"
      using allocation_loop_Inr[OF inner] by (simp add: project_allocations_def)
    with Cons.IH[OF rest] False pn_eq show ?thesis
      by (simp add: last_wins_Cons del: fun_upd_apply)
  qed
qed

lemma get_project_resource_allocations_Inr:
  assumes "get_project_resource_allocations s = Inr (ret, lg)"
    and "projects s = Some doc" and "children doc \<noteq> []" and "truthy (resources s)"
  shows "ret = last_wins project_name_of (project_allocations s) (named_projects doc)"
proof -
  from assms have "project_loop s (findall_path doc [''Project'']) (Map.empty, []) = Inr (ret, lg)"
    by (simp add: get_project_resource_allocations_def truthy_def)
  from project_loop_Inr[OF this] show ?thesis
    by (simp add: named_projects_def)
qed

section \<open>When the program returns\<close>

text \<open>
  Indexing and joining return exactly on readable documents; on every other document they
  end with \<^verbatim>\<open>AttributeError\<close>.
\<close>

lemma safe_element_text_eq:
  "safe_element_text x = (if has_text x then Inr (trimmed_text x) else Inl AttributeError)"
  by (auto simp: safe_element_text_def has_text_def trimmed_text_def split: option.splits)

lemma map_safe_element_text_eq:
  "map_safe_element_text es =
     (if all_have_text es then Inr (map (\<lambda>c. trimmed_text (Some c)) es) else Inl AttributeError)"
  by (induction es) (auto simp: all_have_text_def safe_element_text_eq has_text_def)

lemma findall_nonempty_eq:
  "findall_nonempty e p =
     (if all_have_text (findall_path e p) then Inr (nonempty_texts e p) else Inl AttributeError)"
  by (simp add: findall_nonempty_def map_safe_element_text_eq nonempty_texts_def)

lemma resource_loop_returns:
  "grouped_resinfo s g \<noteq> None \<Longrightarrow>
   (\<exists>s' lg'. resource_loop g es (s, lg) = Inr (s', lg')) = list_all resource_readable es"
proof (induction es arbitrary: s lg)
  case Nil
  then show ?case by simp
next
  case (Cons e es)
  from Cons.prems obtain l where l: "grouped_resinfo s g = Some l" by auto
  show ?case
  proof (cases "resource_readable e")
    case False
    then show ?thesis
      using l
      by (auto simp: resource_readable_def safe_element_text_eq findall_nonempty_eq
          well_formed_resource_def Let_def simp del: findall_path.simps split: if_splits)
  next
    case True
    show ?thesis
    proof (cases "well_formed_resource e")
      case wf: True
      with True l have "resource_loop g (e # es) (s, lg) =
          resource_loop g es
            (s\<lparr>resinfo_table := resinfo_table s @ [resinfo_of g e],
               grouped_resinfo := (grouped_resinfo s)(g \<mapsto> l @ [resinfo_of g e]),
               resinfo_by_name := (resinfo_by_name s)(name (resinfo_of g e) \<mapsto> resinfo_of g e),
               resinfo_by_fqdn := (resinfo_by_fqdn s)(fqdn (resinfo_of g e) \<mapsto> resinfo_of g e)\<rparr>, lg)"
        by (simp add: resource_readable_def safe_element_text_eq findall_nonempty_eq
            well_formed_resource_def resinfo_of_def Let_def del: findall_path.simps)
      with True show ?thesis
        by (simp add: Cons.IH del: resource_loop.simps)
    next
      case nwf: False
      with True have "resource_loop g (e # es) (s, lg) =
          resource_loop g es (s, lg @ [MalformedResource e])"
        by (auto simp: resource_readable_def safe_element_text_eq findall_nonempty_eq
            well_formed_resource_def Let_def simp del: findall_path.simps)
      with True Cons.prems show ?thesis
        by (simp add: Cons.IH del: resource_loop.simps)
    qed
  qed
qed

lemma group_loop_returns:
  "(\<exists>s' lg'. group_loop gs (s, lg) = Inr (s', lg')) = list_all group_readable gs"
proof (induction gs arbitrary: s lg)
  case Nil
  then show ?case by simp
next
  case (Cons g gs)
  show ?case
  proof (cases "has_text (find_path g [''GroupName''])")
    case False
    then show ?thesis
      by (simp add: group_readable_def safe_element_text_eq)
  next
    case True
    show ?thesis
    proof (cases "group_name_of g = []")
      case e: True
      with True have "group_loop (g # gs) (s, lg) = group_loop gs (s, lg @ [MalformedResourceGroup g])"
        by (simp add: safe_element_text_eq group_name_of_def)
      moreover from True e have "group_readable g"
        by (simp add: group_readable_def)
      ultimately show ?thesis
        by (simp add: Cons.IH del: group_loop.simps)
    next
      case ne: False
      let ?s0 = "s\<lparr>grouped_resinfo := (grouped_resinfo s)(group_name_of g \<mapsto> [])\<rparr>"
      let ?es = "findall_path g [''Resources'', ''Resource'']"
      have step: "group_loop (g # gs) (s, lg) =
          (case resource_loop (group_name_of g) ?es (?s0, lg) of
             Inl x \<Rightarrow> Inl x | Inr st \<Rightarrow> group_loop gs st)"
        using True ne by (simp add: safe_element_text_eq group_name_of_def del: findall_path.simps)
      have inner: "(\<exists>s' lg'. resource_loop (group_name_of g) ?es (?s0, lg) = Inr (s', lg')) =
          list_all resource_readable ?es"
        by (rule resource_loop_returns) simp
      show ?thesis
      proof (cases "resource_loop (group_name_of g) ?es (?s0, lg)")
        case (Inl x)
        with inner have "\<not> list_all resource_readable ?es" by auto
        with ne have "\<not> group_readable g"
          by (simp add: group_readable_def del: findall_path.simps)
        with Inl show ?thesis
          unfolding step by simp
      next
        case (Inr st)
        with inner have "list_all resource_readable ?es" by auto
        with True ne have "group_readable g"
          by (simp add: group_readable_def del: findall_path.simps)
        moreover obtain s1 lg1 where "st = (s1, lg1)" by (cases st)
        ultimately show ?thesis
          using Inr Cons.IH[of s1 lg1]
          unfolding step by simp
      qed
    qed
  qed
qed

lemma update_resources_returns:
  "(\<exists>s' lg. update_resources env s = Inr (s', lg)) \<longleftrightarrow>
   (\<exists>doc. get_data env s ''/rgsummary/xml'' = Inr doc \<and>
          list_all group_readable (findall_path doc [''ResourceGroup'']))"
  by (cases "get_data env s ''/rgsummary/xml''")
     (simp_all add: update_resources_def group_loop_returns del: findall_path.simps)


lemma submit_loop_returns:
  "(\<exists>acc' lg'. submit_loop s es (acc, lg) = Inr (acc', lg')) = all_have_text es"
proof (induction es arbitrary: acc lg)
  case Nil
  then show ?case by (simp add: all_have_text_def)
next
  case (Cons e es)
  have unfold: "all_have_text (e # es) = (has_text (Some e) \<and> all_have_text es)"
    by (simp add: all_have_text_def has_text_def)
  show ?case
    unfolding unfold
    by (cases "resinfo_by_name s (trimmed_text (Some e))")
       (simp_all add: safe_element_text_eq Cons.IH)
qed

lemma execute_loop_returns:
  "(\<exists>acc' lg'. execute_loop s es (acc, lg) = Inr (acc', lg')) = list_all execute_group_readable es"
proof (induction es arbitrary: acc lg)
  case Nil
  then show ?case by simp
next
  case (Cons e es)
  show ?case
  proof (cases "execute_group_readable e")
    case False
    then show ?thesis
      by (auto simp: execute_group_readable_def safe_element_text_eq)
  next
    case True
    let ?g = "trimmed_text (find_path e [''GroupName''])"
    let ?a = "trimmed_text (find_path e [''LocalAllocationID''])"
    have "\<exists>acc1 lg1. execute_loop s (e # es) (acc, lg) = execute_loop s es (acc1, lg1)"
    proof (cases "?g = [] \<or> ?a = []")
      case skip: True
      with True have "execute_loop s (e # es) (acc, lg) =
          execute_loop s es (acc, lg @ [MalformedExecuteResourceGroup e])"
        by (auto simp: execute_group_readable_def safe_element_text_eq)
      then show ?thesis by blast
    next
      case keep: False
      show ?thesis
      proof (cases "grouped_resinfo s ?g")
        case None
        with True keep have "execute_loop s (e # es) (acc, lg) =
            execute_loop s es (acc, lg @ [MissingExecuteResourceGroup ?g])"
          by (simp add: execute_group_readable_def safe_element_text_eq)
        then show ?thesis by blast
      next
        case (Some rl)
        show ?thesis
        proof (cases "rl = []")
          case True
          with \<open>execute_group_readable e\<close> keep Some have "execute_loop s (e # es) (acc, lg) =
              execute_loop s es (acc, lg @ [MissingExecuteResourceGroup ?g])"
            by (simp add: execute_group_readable_def safe_element_text_eq)
          then show ?thesis by blast
        next
          case False
          with \<open>execute_group_readable e\<close> keep Some have "execute_loop s (e # es) (acc, lg) =
              execute_loop s es
                (acc @ [\<lparr>erg_ces = map (\<lambda>x. \<lparr>ce_fqdn = fqdn x, ce_name = name x\<rparr>)
                                     (filter is_ce rl),
                          erg_group_name = ?g, erg_local_allocation_id = ?a\<rparr>], lg)"
            by (simp add: execute_group_readable_def safe_element_text_eq Let_def)
          then show ?thesis by blast
        qed
      qed
    qed
    then obtain acc1 lg1 where
      "execute_loop s (e # es) (acc, lg) = execute_loop s es (acc1, lg1)"
      by blast
    with True show ?thesis
      by (simp add: Cons.IH del: execute_loop.simps)
  qed
qed

lemma allocation_loop_returns:
  "(\<exists>acc' lg'. allocation_loop s ras (acc, lg) = Inr (acc', lg')) =
   list_all allocation_readable ras"
proof (induction ras arbitrary: acc lg)
  case Nil
  then show ?case by simp
next
  case (Cons ra ras)
  let ?lg1 = "lg @ missing_warnings ra (allocation_type_of ra) (execute_group_elements ra)
                     (submit_elements ra)"
  show ?case
  proof (cases "has_text (find_path ra [''Type''])")
    case False
    then show ?thesis
      by (simp add: allocation_readable_def safe_element_text_eq)
  next
    case ty: True
    show ?thesis
    proof (cases "allocation_present ra")
      case False
      with ty have "allocation_loop s (ra # ras) (acc, lg) = allocation_loop s ras (acc, ?lg1)"
        by (auto simp: safe_element_text_eq allocation_present_def allocation_type_of_def
            execute_group_elements_def submit_elements_def Let_def
            simp del: findall_path.simps)
      moreover from ty False have "allocation_readable ra"
        by (simp add: allocation_readable_def)
      ultimately show ?thesis
        by (simp add: Cons.IH del: allocation_loop.simps)
    next
      case True
      with ty have step: "allocation_loop s (ra # ras) (acc, lg) =
          (case submit_loop s (submit_elements ra) ([], ?lg1) of
             Inl x \<Rightarrow> Inl x
           | Inr (submit_resources, lg2) \<Rightarrow>
               (case execute_loop s (execute_group_elements ra) ([], lg2) of
                  Inl x \<Rightarrow> Inl x
                | Inr (execute_resource_groups, lg3) \<Rightarrow>
                    allocation_loop s ras
                      (acc @ [\<lparr>alloc_type = allocation_type_of ra,
                                alloc_submit_resources = submit_resources,
                                alloc_execute_resource_groups = execute_resource_groups\<rparr>], lg3)))"
        unfolding allocation_present_def allocation_type_of_def
          execute_group_elements_def submit_elements_def
        by (simp add: safe_element_text_eq Let_def del: findall_path.simps)
      show ?thesis
      proof (cases "submit_loop s (submit_elements ra) ([], ?lg1)")
        case (Inl x)
        with submit_loop_returns[of s "submit_elements ra" "[]" ?lg1]
        have "\<not> all_have_text (submit_elements ra)" by auto
        with True have "\<not> allocation_readable ra"
          by (simp add: allocation_readable_def)
        with Inl show ?thesis
          unfolding step by simp
      next
        case (Inr r1)
        obtain subs lg2 where r1: "r1 = (subs, lg2)" by (cases r1)
        from Inr submit_loop_returns[of s "submit_elements ra" "[]" ?lg1]
        have st: "all_have_text (submit_elements ra)" by auto
        show ?thesis
        proof (cases "execute_loop s (execute_group_elements ra) ([], lg2)")
          case (Inl x)
          with execute_loop_returns[of s "execute_group_elements ra" "[]" lg2]
          have "\<not> list_all execute_group_readable (execute_group_elements ra)" by auto
          with True have "\<not> allocation_readable ra"
            by (simp add: allocation_readable_def)
          with Inl Inr r1 show ?thesis
            unfolding step by simp
        next
          case (Inr r2)
          obtain exs lg3 where r2: "r2 = (exs, lg3)" by (cases r2)
          from Inr execute_loop_returns[of s "execute_group_elements ra" "[]" lg2]
          have "list_all execute_group_readable (execute_group_elements ra)" by auto
          with True ty st have "allocation_readable ra"
            by (simp add: allocation_readable_def)
          with Inr r2 \<open>submit_loop s (submit_elements ra) ([], ?lg1) = Inr r1\<close> r1
          show ?thesis
            unfolding step by (simp add: Cons.IH)
        qed
      qed
    qed
  qed
qed

lemma project_loop_returns:
  "(\<exists>ret' lg'. project_loop s ps (ret, lg) = Inr (ret', lg')) = list_all project_readable ps"
proof (induction ps arbitrary: ret lg)
  case Nil
  then show ?case by simp
next
  case (Cons p ps)
  show ?case
  proof (cases "has_text (find_path p [''Name''])")
    case False
    then show ?thesis
      by (simp add: project_readable_def safe_element_text_eq)
  next
    case nm: True
    show ?thesis
    proof (cases "project_name_of p = []")
      case True
      with nm have "project_loop s (p # ps) (ret, lg) =
          project_loop s ps (ret, lg @ [ProjectMissingName p])"
        by (simp add: safe_element_text_eq project_name_of_def)
      moreover from nm True have "project_readable p"
        by (simp add: project_readable_def)
      ultimately show ?thesis
        by (simp add: Cons.IH del: project_loop.simps)
    next
      case False
      with nm have step: "project_loop s (p # ps) (ret, lg) =
          (case allocation_loop s (allocation_elements p) ([], lg) of
             Inl x \<Rightarrow> Inl x
           | Inr (allocations, lg') \<Rightarrow>
               project_loop s ps (ret(project_name_of p \<mapsto> allocations), lg'))"
        unfolding project_name_of_def allocation_elements_def
        by (simp add: safe_element_text_eq del: findall_path.simps)
      show ?thesis
      proof (cases "allocation_loop s (allocation_elements p) ([], lg)")
        case (Inl x)
        with allocation_loop_returns[of s "allocation_elements p" "[]" lg]
        have "\<not> list_all allocation_readable (allocation_elements p)" by auto
        with False have "\<not> project_readable p"
          by (simp add: project_readable_def)
        with Inl show ?thesis
          unfolding step by simp
      next
        case (Inr r)
        obtain allocs lg1 where r: "r = (allocs, lg1)" by (cases r)
        from Inr allocation_loop_returns[of s "allocation_elements p" "[]" lg]
        have "list_all allocation_readable (allocation_elements p)" by auto
        with nm False have "project_readable p"
          by (simp add: project_readable_def)
        with Inr r show ?thesis
          unfolding step by (simp add: Cons.IH)
      qed
    qed
  qed
qed

lemma get_project_resource_allocations_returns:
  "(\<exists>ret lg. get_project_resource_allocations s = Inr (ret, lg)) \<longleftrightarrow>
   (\<not> truthy (projects s) \<or> \<not> truthy (resources s) \<or>
    (\<exists>doc. projects s = Some doc \<and> list_all project_readable (findall_path doc [''Project''])))"
  by (cases "projects s")
     (auto simp: get_project_resource_allocations_def truthy_def project_loop_returns
        simp del: findall_path.simps)

section \<open>Running the examples\<close>

lemmas ex_defs = leaf_def node_def resource_elem_def ce1_elem_def blank_elem_def ap1_elem_def
  groupA_elem_def nameless_group_elem_def example_resources_def ce1_def ap1_def
  example_indexed_def example_warnings_def env_of_def fresh_def no_projects_doc_def

lemmas ex2_defs = twin_group1_elem_def twin_group2_elem_def twin_groups_doc_def twin1_def twin2_def twin_groups_indexed_def

lemmas eval_defs = update_resources_def get_data_def
      safe_element_text_def find_path_def findall_nonempty_def strip_def isspace_def Let_def

lemmas view_defs = group_name_of_def trimmed_text_def well_formed_resource_def nonempty_texts_def
  resinfo_of_def find_path_def strip_def isspace_def

lemmas ex3_defs = execute_group_elem_def nowhere_elem_def old_allocation_elem_def
  untyped_allocation_elem_def hosted_allocation_elem_def other_allocation_elem_def
  earlier_project_elem_def later_project_elem_def nameless_project_elem_def
  example_projects_def example_state_def hosted_allocation_def other_allocation_def
  example_join_warnings_def

lemmas join_view_defs = project_name_of_def allocation_elements_def allocation_present_def
  allocation_type_of_def execute_group_elements_def submit_elements_def trimmed_text_def
  find_path_def strip_def isspace_def

lemma example_run:
  "update_resources (env_of no_projects_doc example_resources) fresh =
     Inr (example_indexed, example_warnings)"
  by (simp add: update_resources_def get_data_def ex_defs
      safe_element_text_def find_path_def findall_nonempty_def strip_def isspace_def Let_def)


lemma twin_groups_run:
  "update_resources (env_of no_projects_doc twin_groups_doc) fresh = Inr (twin_groups_indexed, [])"
  by (simp add: eval_defs ex_defs ex2_defs)

lemma twin_groups_rerun:
  "update_resources (env_of no_projects_doc twin_groups_doc) example_indexed = Inr (twin_groups_indexed, [])"
  by (simp add: eval_defs ex_defs ex2_defs)

lemma example_join:
  "get_project_resource_allocations example_state =
     Inr ([''ProjA'' \<mapsto> [hosted_allocation, other_allocation]], example_join_warnings)"
  by (simp add: get_project_resource_allocations_def truthy_def ex_defs ex3_defs
      safe_element_text_def find_path_def strip_def isspace_def Let_def missing_warnings_def
      is_ce_def SERVICE_ID_CE_def)


lemma example_projects_split:
  "findall_path example_projects [''Project''] =
     [earlier_project_elem] @ later_project_elem # [nameless_project_elem]"
  by (simp add: ex_defs ex3_defs)

lemma example_state_fields:
  "projects example_state = Some example_projects"
  "truthy (resources example_state)"
  by (simp_all add: ex_defs ex3_defs truthy_def)

lemma later_project_name:
  "project_name_of later_project_elem = ''ProjA''"
  "project_name_of earlier_project_elem = ''ProjA''"
  "project_name_of nameless_project_elem = []"
  by (simp_all add: ex_defs ex3_defs join_view_defs)

lemma later_project_present:
  "filter allocation_present (allocation_elements later_project_elem) =
     [hosted_allocation_elem, other_allocation_elem]"
  by (simp add: ex_defs ex3_defs join_view_defs)

lemmas ex4_defs = unnamed_project_elem_def unnamed_projects_doc_def unnamed_projects_state_def
  no_resources_doc_def childless_resources_state_def empty_type_projects_doc_def
  empty_submit_projects_doc_def

lemmas join_eval_defs = get_project_resource_allocations_def truthy_def
  safe_element_text_def find_path_def strip_def isspace_def Let_def missing_warnings_def
  is_ce_def SERVICE_ID_CE_def


lemma childless_resources_join:
  "get_project_resource_allocations childless_resources_state = Inr (Map.empty, [])"
  by (simp add: join_eval_defs ex_defs ex3_defs ex4_defs)

text \<open>
  The join on the two documents with an empty element: \<^verbatim>\<open>safe_element_text\<close> raises as it
  does in indexing, on \<^verbatim>\<open><Type/>\<close> and on \<^verbatim>\<open><SubmitResource/>\<close>.
\<close>

lemma empty_type_join:
  "get_project_resource_allocations (example_indexed\<lparr>projects := Some empty_type_projects_doc\<rparr>) =
     Inl AttributeError"
  by (simp add: join_eval_defs ex_defs ex3_defs ex4_defs)

lemma empty_submit_join:
  "get_project_resource_allocations (example_indexed\<lparr>projects := Some empty_submit_projects_doc\<rparr>) =
     Inl AttributeError"
  by (simp add: join_eval_defs ex_defs ex3_defs ex4_defs)

section \<open>The claims\<close>

subsection \<open>Indexing and malformed elements\<close>

lemma safe_element_text_no_text:
  "elem_text e = None \<Longrightarrow> safe_element_text (Some e) = Inl AttributeError"
  by (simp add: safe_element_text_def)

text \<open>
  C1. The claim: indexing a resource document never raises for a malformed sub-element;
  a malformed group or resource is skipped with a warning. The program does not do this
  for an element that is there and empty: on a group whose \<^verbatim>\<open>GroupName\<close> element is
  \<^verbatim>\<open><GroupName/>\<close> (its \<^verbatim>\<open>text\<close> is \<^verbatim>\<open>None\<close>), \<^verbatim>\<open>safe_element_text\<close> calls
  \<^verbatim>\<open>None.strip()\<close>, and \<^verbatim>\<open>update_resources\<close> ends with \<^verbatim>\<open>AttributeError\<close> instead of
  skipping the group. By \<open>update_resources_returns\<close> this is what happens on every fetched
  document that is not readable.
\<close>

theorem update_resources_raises_on_empty_element:
  "update_resources (env_of no_projects_doc empty_name_doc) fresh = Inl AttributeError"
  by (simp add: update_resources_def get_data_def env_of_def fresh_def empty_name_doc_def
      safe_element_text_def find_path_def)

subsection \<open>The index by group\<close>

lemma last_wins_filter_last:
  assumes "xs = pre @ x # post" and "P x" and "k x \<notin> k ` set post"
  shows "last_wins k v (filter P xs) (k x) = Some (v x)"
proof -
  from assms(1,2) have "filter P xs = filter P pre @ x # filter P post"
    by simp
  moreover from assms(3) have "k x \<notin> k ` set (filter P post)"
    by auto
  ultimately show ?thesis
    using last_wins_last[of k x "filter P post" v "filter P pre"] by simp
qed

lemma group_records_fields:
  "r \<in> set (group_records g) \<Longrightarrow> name r \<noteq> [] \<and> fqdn r \<noteq> [] \<and> service_ids r \<noteq> []"
  by (auto simp: group_records_def resinfo_of_def well_formed_resource_def)

lemma malformed_resinfo_of:
  "\<not> well_formed_resource e \<Longrightarrow>
   name (resinfo_of g e) = [] \<or> fqdn (resinfo_of g e) = [] \<or> service_ids (resinfo_of g e) = []"
  by (auto simp: resinfo_of_def well_formed_resource_def)

lemma indexed_records_admitted:
  assumes "update_resources env s = Inr (s', lg)"
  shows "r \<in> set (resinfo_table s') \<Longrightarrow> name r \<noteq> [] \<and> fqdn r \<noteq> [] \<and> service_ids r \<noteq> []"
    and "resinfo_by_name s' k = Some r \<Longrightarrow> r \<in> set (resinfo_table s')"
    and "resinfo_by_fqdn s' k = Some r \<Longrightarrow> r \<in> set (resinfo_table s')"
    and "grouped_resinfo s' k = Some l \<Longrightarrow> set l \<subseteq> set (resinfo_table s')"
proof -
  from update_resources_Inr[OF assms] obtain doc where
    t: "resinfo_table s' = concat (map group_records (named_groups doc))" and
    g: "grouped_resinfo s' = last_wins group_name_of group_records (named_groups doc)" and
    n: "resinfo_by_name s' = last_wins name (\<lambda>r. r) (resinfo_table s')" and
    f: "resinfo_by_fqdn s' = last_wins fqdn (\<lambda>r. r) (resinfo_table s')"
    by blast
  show "r \<in> set (resinfo_table s') \<Longrightarrow> name r \<noteq> [] \<and> fqdn r \<noteq> [] \<and> service_ids r \<noteq> []"
    unfolding t using group_records_fields by auto
  show "resinfo_by_name s' k = Some r \<Longrightarrow> r \<in> set (resinfo_table s')"
    unfolding n by (auto dest: last_wins_SomeD)
  show "resinfo_by_fqdn s' k = Some r \<Longrightarrow> r \<in> set (resinfo_table s')"
    unfolding f by (auto dest: last_wins_SomeD)
  show "grouped_resinfo s' k = Some l \<Longrightarrow> set l \<subseteq> set (resinfo_table s')"
    unfolding g t by (auto dest!: last_wins_SomeD)
qed

text \<open>
  C2, as the program has it. When indexing returns: for a group with a non-empty name that
  no later group of the document shares, \<^verbatim>\<open>by_group\<close> at that name is the list of the
  records of the group's well-formed resources (name, FQDN and service-id list non-empty
  after trimming), in document order; and the record of a malformed resource is in none
  of the table and the three indices.
\<close>

theorem by_group_lists_well_formed_resources:
  assumes "update_resources env s = Inr (s', lg)" and "resources s' = Some doc"
  shows "(\<forall>pre g post.
            findall_path doc [''ResourceGroup''] = pre @ g # post \<and> group_name_of g \<noteq> [] \<and>
            group_name_of g \<notin> group_name_of ` set post \<longrightarrow>
            grouped_resinfo s' (group_name_of g) =
              Some (map (resinfo_of (group_name_of g))
                     (filter well_formed_resource (findall_path g [''Resources'', ''Resource''])))) \<and>
         (\<forall>g e. \<not> well_formed_resource e \<longrightarrow>
            resinfo_of g e \<notin> set (resinfo_table s') \<and>
            resinfo_of g e \<notin> ran (resinfo_by_name s') \<and>
            resinfo_of g e \<notin> ran (resinfo_by_fqdn s') \<and>
            resinfo_of g e \<notin> \<Union> (set ` ran (grouped_resinfo s')))"
proof (intro conjI allI impI)
  fix pre g post
  assume h: "findall_path doc [''ResourceGroup''] = pre @ g # post \<and> group_name_of g \<noteq> [] \<and>
            group_name_of g \<notin> group_name_of ` set post"
  from update_resources_Inr[OF assms(1)] assms(2)
  have "grouped_resinfo s' = last_wins group_name_of group_records (named_groups doc)"
    by auto
  moreover from h have "last_wins group_name_of group_records (named_groups doc) (group_name_of g) =
      Some (group_records g)"
    unfolding named_groups_def by (intro last_wins_filter_last[where pre = pre and post = post]) auto
  ultimately show "grouped_resinfo s' (group_name_of g) =
              Some (map (resinfo_of (group_name_of g))
                     (filter well_formed_resource (findall_path g [''Resources'', ''Resource''])))"
    by (simp add: group_records_def)
next
  fix g e
  assume "\<not> well_formed_resource e"
  from malformed_resinfo_of[OF this, of g] indexed_records_admitted(1)[OF assms(1), of "resinfo_of g e"]
  show a: "resinfo_of g e \<notin> set (resinfo_table s')"
    by blast
  with indexed_records_admitted(2)[OF assms(1)]
  show "resinfo_of g e \<notin> ran (resinfo_by_name s')"
    by (auto simp: ran_def)
  from a indexed_records_admitted(3)[OF assms(1)]
  show "resinfo_of g e \<notin> ran (resinfo_by_fqdn s')"
    by (auto simp: ran_def)
  from a indexed_records_admitted(4)[OF assms(1)]
  show "resinfo_of g e \<notin> \<Union> (set ` ran (grouped_resinfo s'))"
    by (auto simp: ran_def)
qed

text \<open>
  The theorem at the example document: the group \<^verbatim>\<open>GroupA\<close> lists its two well-formed
  resources, and the record of the resource with the blank name is absent.
\<close>

theorem by_group_lists_well_formed_resources_witness:
  "update_resources (env_of no_projects_doc example_resources) fresh =
     Inr (example_indexed, example_warnings) \<and>
   resources example_indexed = Some example_resources \<and>
   findall_path example_resources [''ResourceGroup''] = [] @ groupA_elem # [nameless_group_elem] \<and>
   group_name_of groupA_elem \<noteq> [] \<and>
   group_name_of groupA_elem \<notin> group_name_of ` set [nameless_group_elem] \<and>
   grouped_resinfo example_indexed (group_name_of groupA_elem) =
     Some (map (resinfo_of (group_name_of groupA_elem))
            (filter well_formed_resource (findall_path groupA_elem [''Resources'', ''Resource'']))) \<and>
   map (resinfo_of (group_name_of groupA_elem))
     (filter well_formed_resource (findall_path groupA_elem [''Resources'', ''Resource''])) = [ce1, ap1] \<and>
   \<not> well_formed_resource blank_elem \<and>
   resinfo_of ''GroupA'' blank_elem \<notin> set (resinfo_table example_indexed) \<and>
   resinfo_of ''GroupA'' blank_elem \<notin> ran (resinfo_by_name example_indexed)"
proof -
  have h1: "update_resources (env_of no_projects_doc example_resources) fresh =
     Inr (example_indexed, example_warnings)"
    by (rule example_run)
  have h2: "resources example_indexed = Some example_resources"
    by (simp add: example_indexed_def)
  have h3: "findall_path example_resources [''ResourceGroup''] = [] @ groupA_elem # [nameless_group_elem]"
    by (simp add: ex_defs)
  have h4: "group_name_of groupA_elem \<noteq> []"
    by (simp add: ex_defs view_defs)
  have h5: "group_name_of groupA_elem \<notin> group_name_of ` set [nameless_group_elem]"
    by (simp add: ex_defs view_defs)
  have h6: "\<not> well_formed_resource blank_elem"
    by (simp add: ex_defs view_defs)
  have v: "map (resinfo_of (group_name_of groupA_elem))
     (filter well_formed_resource (findall_path groupA_elem [''Resources'', ''Resource''])) = [ce1, ap1]"
    by (simp add: ex_defs view_defs)
  note T = by_group_lists_well_formed_resources[OF h1 h2]
  from T h3 h4 h5 have c1: "grouped_resinfo example_indexed (group_name_of groupA_elem) =
     Some (map (resinfo_of (group_name_of groupA_elem))
            (filter well_formed_resource (findall_path groupA_elem [''Resources'', ''Resource''])))"
    by blast
  from T h6 have c2: "resinfo_of ''GroupA'' blank_elem \<notin> set (resinfo_table example_indexed)"
    and c3: "resinfo_of ''GroupA'' blank_elem \<notin> ran (resinfo_by_name example_indexed)"
    by blast+
  from h1 h2 h3 h4 h5 h6 v c1 c2 c3 show ?thesis
    by (intro conjI)
qed

text \<open>
  C2 as it is stated, for every group with a non-empty name, fails when two groups have
  the same name: \<^verbatim>\<open>self.grouped_resinfo[group_name] = []\<close> starts the list again, so the
  well-formed resource of the earlier group is not in \<^verbatim>\<open>by_group\<close> at its group's name.
\<close>

theorem earlier_same_named_group_not_in_by_group:
  "update_resources (env_of no_projects_doc twin_groups_doc) fresh = Inr (twin_groups_indexed, []) \<and>
   findall_path twin_groups_doc [''ResourceGroup''] = [twin_group1_elem, twin_group2_elem] \<and>
   group_name_of twin_group1_elem = ''G'' \<and>
   map (resinfo_of ''G'')
     (filter well_formed_resource (findall_path twin_group1_elem [''Resources'', ''Resource''])) = [twin1] \<and>
   grouped_resinfo twin_groups_indexed ''G'' = Some [twin2] \<and>
   twin1 \<notin> set [twin2]"
proof (intro conjI)
  show "update_resources (env_of no_projects_doc twin_groups_doc) fresh = Inr (twin_groups_indexed, [])"
    by (rule twin_groups_run)
  show "findall_path twin_groups_doc [''ResourceGroup''] = [twin_group1_elem, twin_group2_elem]"
    by (simp add: ex_defs ex2_defs)
  show "group_name_of twin_group1_elem = ''G''"
    by (simp add: ex_defs ex2_defs view_defs)
  show "map (resinfo_of ''G'')
     (filter well_formed_resource (findall_path twin_group1_elem [''Resources'', ''Resource''])) = [twin1]"
    by (simp add: ex_defs ex2_defs view_defs)
  show "grouped_resinfo twin_groups_indexed ''G'' = Some [twin2]"
    by (simp add: ex2_defs)
  show "twin1 \<notin> set [twin2]"
    by (simp add: ex2_defs)
qed

subsection \<open>The indices by name and by FQDN\<close>

text \<open>
  C6. When indexing returns, the table is the list of the admitted records in document
  order; \<^verbatim>\<open>by_name\<close> has an entry for exactly the names of the table, \<^verbatim>\<open>by_fqdn\<close> for
  exactly its FQDNs; and the entry for a key is the last record of the table with that key.
\<close>

theorem by_name_and_by_fqdn_last_seen_wins:
  assumes "update_resources env s = Inr (s', lg)" and "resources s' = Some doc"
  shows "resinfo_table s' = concat (map group_records (named_groups doc)) \<and>
         dom (resinfo_by_name s') = name ` set (resinfo_table s') \<and>
         dom (resinfo_by_fqdn s') = fqdn ` set (resinfo_table s') \<and>
         (\<forall>pre r post. resinfo_table s' = pre @ r # post \<and> name r \<notin> name ` set post \<longrightarrow>
            resinfo_by_name s' (name r) = Some r) \<and>
         (\<forall>pre r post. resinfo_table s' = pre @ r # post \<and> fqdn r \<notin> fqdn ` set post \<longrightarrow>
            resinfo_by_fqdn s' (fqdn r) = Some r)"
proof -
  from update_resources_Inr[OF assms(1)] assms(2) have
    t: "resinfo_table s' = concat (map group_records (named_groups doc))" and
    n: "resinfo_by_name s' = last_wins name (\<lambda>r. r) (resinfo_table s')" and
    f: "resinfo_by_fqdn s' = last_wins fqdn (\<lambda>r. r) (resinfo_table s')"
    by auto
  have "resinfo_by_name s' (name r) = Some r"
    if "resinfo_table s' = pre @ r # post \<and> name r \<notin> name ` set post" for pre r post
    using that n last_wins_last[of name r post "\<lambda>r. r" pre] by simp
  moreover have "resinfo_by_fqdn s' (fqdn r) = Some r"
    if "resinfo_table s' = pre @ r # post \<and> fqdn r \<notin> fqdn ` set post" for pre r post
    using that f last_wins_last[of fqdn r post "\<lambda>r. r" pre] by simp
  moreover have "dom (resinfo_by_name s') = name ` set (resinfo_table s')"
    by (subst n) (rule dom_last_wins)
  moreover have "dom (resinfo_by_fqdn s') = fqdn ` set (resinfo_table s')"
    by (subst f) (rule dom_last_wins)
  ultimately show ?thesis
    using t by blast
qed


text \<open>
  The theorem at the document with two resources of the same name: the entry for the name
  is the later record.
\<close>

theorem by_name_and_by_fqdn_last_seen_wins_witness:
  "update_resources (env_of no_projects_doc twin_groups_doc) fresh = Inr (twin_groups_indexed, []) \<and>
   resources twin_groups_indexed = Some twin_groups_doc \<and>
   resinfo_table twin_groups_indexed = [twin1] @ twin2 # [] \<and>
   name twin1 = name twin2 \<and>
   name twin2 \<notin> name ` set [] \<and>
   resinfo_by_name twin_groups_indexed (name twin2) = Some twin2 \<and>
   dom (resinfo_by_name twin_groups_indexed) = name ` set (resinfo_table twin_groups_indexed) \<and>
   resinfo_table twin_groups_indexed = [] @ twin1 # [twin2] \<and>
   fqdn twin1 \<notin> fqdn ` set [twin2] \<and>
   resinfo_by_fqdn twin_groups_indexed (fqdn twin1) = Some twin1"
proof -
  have h1: "update_resources (env_of no_projects_doc twin_groups_doc) fresh = Inr (twin_groups_indexed, [])"
    by (rule twin_groups_run)
  have h2: "resources twin_groups_indexed = Some twin_groups_doc"
    by (simp add: twin_groups_indexed_def)
  have h3: "resinfo_table twin_groups_indexed = [twin1] @ twin2 # []"
    by (simp add: twin_groups_indexed_def)
  have h4: "name twin2 \<notin> name ` set []"
    by simp
  have h5: "resinfo_table twin_groups_indexed = [] @ twin1 # [twin2]"
    by (simp add: twin_groups_indexed_def)
  have h6: "fqdn twin1 \<notin> fqdn ` set [twin2]"
    by (simp add: ex2_defs)
  have e: "name twin1 = name twin2"
    by (simp add: ex2_defs)
  note T = by_name_and_by_fqdn_last_seen_wins[OF h1 h2]
  from T h3 h4 have c1: "resinfo_by_name twin_groups_indexed (name twin2) = Some twin2"
    by blast
  from T h5 h6 have c2: "resinfo_by_fqdn twin_groups_indexed (fqdn twin1) = Some twin1"
    by blast
  from T have c3: "dom (resinfo_by_name twin_groups_indexed) = name ` set (resinfo_table twin_groups_indexed)"
    by blast
  from h1 h2 h3 e h4 c1 c3 h5 h6 c2 show ?thesis
    by (intro conjI)
qed

subsection \<open>Indexing again\<close>

lemma update_resources_frame:
  assumes "topology_base a = topology_base b" and "projects a = projects b"
  shows "update_resources env a = update_resources env b"
proof -
  have g: "get_data env a ep = get_data env b ep" for ep
    using assms(1) by (simp add: get_data_def)
  have r: "a\<lparr>resources := r, resinfo_table := [], grouped_resinfo := Map.empty,
       resinfo_by_name := Map.empty, resinfo_by_fqdn := Map.empty\<rparr> =
     b\<lparr>resources := r, resinfo_table := [], grouped_resinfo := Map.empty,
       resinfo_by_name := Map.empty, resinfo_by_fqdn := Map.empty\<rparr>" for r
    using assms by (cases a, cases b) simp
  show ?thesis
    unfolding update_resources_def g r ..
qed

text \<open>
  C7. Indexing is a rebuild. After an indexing that returned, indexing the same document
  again returns the same object and the same warnings. Indexing a second document then
  gives what indexing it from the object before the first run gives, and the table and the
  three indices are those of the second document alone.
\<close>

theorem reindexing_is_a_rebuild:
  assumes "update_resources env s = Inr (s1, lg1)"
    and "update_resources env2 s1 = Inr (s2, lg2)" and "resources s2 = Some doc2"
  shows "update_resources env s1 = Inr (s1, lg1) \<and>
         update_resources env2 s1 = update_resources env2 s \<and>
         get_data env2 s1 ''/rgsummary/xml'' = Inr doc2 \<and>
         resinfo_table s2 = concat (map group_records (named_groups doc2)) \<and>
         grouped_resinfo s2 = last_wins group_name_of group_records (named_groups doc2) \<and>
         resinfo_by_name s2 = last_wins name (\<lambda>r. r) (concat (map group_records (named_groups doc2))) \<and>
         resinfo_by_fqdn s2 = last_wins fqdn (\<lambda>r. r) (concat (map group_records (named_groups doc2)))"
proof -
  from update_resources_Inr[OF assms(1)]
  have fr: "topology_base s1 = topology_base s" "projects s1 = projects s"
    by auto
  have same: "update_resources e s1 = update_resources e s" for e
    by (rule update_resources_frame[OF fr])
  from update_resources_Inr[OF assms(2)] assms(3)
  have "get_data env2 s1 ''/rgsummary/xml'' = Inr doc2 \<and>
         resinfo_table s2 = concat (map group_records (named_groups doc2)) \<and>
         grouped_resinfo s2 = last_wins group_name_of group_records (named_groups doc2) \<and>
         resinfo_by_name s2 = last_wins name (\<lambda>r. r) (concat (map group_records (named_groups doc2))) \<and>
         resinfo_by_fqdn s2 = last_wins fqdn (\<lambda>r. r) (concat (map group_records (named_groups doc2)))"
    by auto
  with same assms(1) show ?thesis
    by simp
qed

text \<open>
  The theorem at the two example documents: after the second run the entry of the first
  document's resource \<^verbatim>\<open>ce1\<close> is gone.
\<close>

theorem reindexing_is_a_rebuild_witness:
  "update_resources (env_of no_projects_doc example_resources) fresh =
     Inr (example_indexed, example_warnings) \<and>
   update_resources (env_of no_projects_doc twin_groups_doc) example_indexed =
     Inr (twin_groups_indexed, []) \<and>
   resources twin_groups_indexed = Some twin_groups_doc \<and>
   update_resources (env_of no_projects_doc example_resources) example_indexed =
     Inr (example_indexed, example_warnings) \<and>
   update_resources (env_of no_projects_doc twin_groups_doc) example_indexed =
     update_resources (env_of no_projects_doc twin_groups_doc) fresh \<and>
   resinfo_table twin_groups_indexed = concat (map group_records (named_groups twin_groups_doc)) \<and>
   resinfo_by_name twin_groups_indexed ''ce1'' = None"
proof -
  have h1: "update_resources (env_of no_projects_doc example_resources) fresh =
     Inr (example_indexed, example_warnings)"
    by (rule example_run)
  have h2: "update_resources (env_of no_projects_doc twin_groups_doc) example_indexed =
     Inr (twin_groups_indexed, [])"
    by (rule twin_groups_rerun)
  have h3: "resources twin_groups_indexed = Some twin_groups_doc"
    by (simp add: twin_groups_indexed_def)
  have c: "resinfo_by_name twin_groups_indexed ''ce1'' = None"
    by (simp add: twin_groups_indexed_def)
  from reindexing_is_a_rebuild[OF h1 h2 h3] h1 h2 h3 c show ?thesis
    by blast
qed

subsection \<open>Fetching a document\<close>

lemma get_data_DataError:
  "get_data env self endpoint = Inl (DataError msg) \<Longrightarrow>
   \<exists>tl. msg = ''Topology query to '' @ endpoint @ tl"
  by (auto simp: get_data_def split: fetch_outcome.splits parse_outcome.splits if_splits)

lemma get_data_DataError_iff:
  "(\<exists>msg. get_data env self endpoint = Inl (DataError msg)) \<longleftrightarrow>
      (urlopen_read env (topology_base self @ endpoint) = EnvironmentError \<or>
       urlopen_read env (topology_base self @ endpoint) = Response [] \<or>
       (\<exists>b. urlopen_read env (topology_base self @ endpoint) = Response b \<and> b \<noteq> [] \<and>
            (fromstring env b = ParseError \<or> fromstring env b = UnicodeDecodeError)))"
  by (cases "urlopen_read env (topology_base self @ endpoint)")
     (auto simp: get_data_def split: parse_outcome.splits)

lemma get_data_Uncaught_iff:
  "get_data env self endpoint = Inl (Uncaught c) \<longleftrightarrow>
      (urlopen_read env (topology_base self @ endpoint) = OtherFetchError c \<or>
       (\<exists>b. urlopen_read env (topology_base self @ endpoint) = Response b \<and> b \<noteq> [] \<and>
            fromstring env b = OtherParseError c))"
  by (cases "urlopen_read env (topology_base self @ endpoint)")
     (auto simp: get_data_def split: parse_outcome.splits)

lemma get_data_Inr_iff:
  "get_data env self endpoint = Inr el \<longleftrightarrow>
      (\<exists>b. urlopen_read env (topology_base self @ endpoint) = Response b \<and> b \<noteq> [] \<and>
           fromstring env b = Parsed el)"
  by (cases "urlopen_read env (topology_base self @ endpoint)")
     (auto simp: get_data_def split: parse_outcome.splits)

lemma get_data_no_other_exception:
  "get_data env self endpoint \<noteq> Inl AttributeError \<and> get_data env self endpoint \<noteq> Inl KeyError"
  by (auto simp: get_data_def split: fetch_outcome.splits parse_outcome.splits if_splits)

text \<open>
  C8, as the program has it. \<^verbatim>\<open>_get_data\<close> raises a \<^verbatim>\<open>DataError\<close> in exactly three cases:
  the fetch raises an \<^verbatim>\<open>EnvironmentError\<close>, the body is empty, or the parser raises
  \<^verbatim>\<open>ParseError\<close> or \<^verbatim>\<open>UnicodeDecodeError\<close>; the message then contains the endpoint. An
  exception of another class, from the fetch or from the parser, leaves the method
  unchanged. In every other case the method returns the parsed root element.
\<close>

theorem get_data_outcomes:
  "((\<exists>msg. get_data env self endpoint = Inl (DataError msg)) \<longleftrightarrow>
      (urlopen_read env (topology_base self @ endpoint) = EnvironmentError \<or>
       urlopen_read env (topology_base self @ endpoint) = Response [] \<or>
       (\<exists>b. urlopen_read env (topology_base self @ endpoint) = Response b \<and> b \<noteq> [] \<and>
            (fromstring env b = ParseError \<or> fromstring env b = UnicodeDecodeError)))) \<and>
   (\<forall>msg. get_data env self endpoint = Inl (DataError msg) \<longrightarrow>
      (\<exists>pre suf. msg = pre @ endpoint @ suf)) \<and>
   (\<forall>c. get_data env self endpoint = Inl (Uncaught c) \<longleftrightarrow>
      (urlopen_read env (topology_base self @ endpoint) = OtherFetchError c \<or>
       (\<exists>b. urlopen_read env (topology_base self @ endpoint) = Response b \<and> b \<noteq> [] \<and>
            fromstring env b = OtherParseError c))) \<and>
   get_data env self endpoint \<noteq> Inl AttributeError \<and>
   get_data env self endpoint \<noteq> Inl KeyError \<and>
   (\<forall>el. get_data env self endpoint = Inr el \<longleftrightarrow>
      (\<exists>b. urlopen_read env (topology_base self @ endpoint) = Response b \<and> b \<noteq> [] \<and>
           fromstring env b = Parsed el))"
proof (intro conjI allI impI)
  fix msg
  assume "get_data env self endpoint = Inl (DataError msg)"
  from get_data_DataError[OF this] show "\<exists>pre suf. msg = pre @ endpoint @ suf"
    by blast
next
  show "get_data env self endpoint \<noteq> Inl AttributeError"
    and "get_data env self endpoint \<noteq> Inl KeyError"
    using get_data_no_other_exception by blast+
qed (rule get_data_DataError_iff, rule get_data_Uncaught_iff, rule get_data_Inr_iff)

text \<open>
  The theorem at the example environment: an endpoint that cannot be fetched, and the
  resource endpoint.
\<close>

theorem get_data_outcomes_witness:
  "urlopen_read (env_of example_projects example_resources) (topology_base fresh @ ''/nowhere'') =
     EnvironmentError \<and>
   (\<exists>pre suf. get_data (env_of example_projects example_resources) fresh ''/nowhere'' =
      Inl (DataError (pre @ ''/nowhere'' @ suf))) \<and>
   urlopen_read (env_of example_projects example_resources) (topology_base fresh @ ''/rgsummary/xml'') =
     Response ''r'' \<and>
   fromstring (env_of example_projects example_resources) ''r'' = Parsed example_resources \<and>
   get_data (env_of example_projects example_resources) fresh ''/rgsummary/xml'' =
     Inr example_resources"
proof -
  let ?env = "env_of example_projects example_resources"
  have f: "urlopen_read ?env (topology_base fresh @ ''/nowhere'') = EnvironmentError"
    by (simp add: env_of_def fresh_def)
  have u: "urlopen_read ?env (topology_base fresh @ ''/rgsummary/xml'') = Response ''r''"
    by (simp add: env_of_def fresh_def)
  have p: "fromstring ?env ''r'' = Parsed example_resources"
    by (simp add: env_of_def)
  note T1 = get_data_outcomes[of ?env fresh "''/nowhere''"]
  note T2 = get_data_outcomes[of ?env fresh "''/rgsummary/xml''"]
  from T1 f obtain msg where x: "get_data ?env fresh ''/nowhere'' = Inl (DataError msg)"
    by blast
  with T1 have c1: "\<exists>pre suf. get_data ?env fresh ''/nowhere'' = Inl (DataError (pre @ ''/nowhere'' @ suf))"
    by blast
  have "''r'' \<noteq> ([] :: bytes)" by simp
  with T2 u p have c2: "get_data ?env fresh ''/rgsummary/xml'' = Inr example_resources"
    by blast
  from f c1 u p c2 show ?thesis
    by (intro conjI)
qed

text \<open>
  C8 as it is stated, a \<^verbatim>\<open>DataError\<close> whenever the fetch fails or the body cannot be
  parsed, fails for the exceptions the two \<^verbatim>\<open>except\<close> clauses do not name: a fetch that
  ends with \<^verbatim>\<open>http.client.IncompleteRead\<close>, and a body with an unknown encoding, for which
  the parser raises \<^verbatim>\<open>LookupError\<close>, leave \<^verbatim>\<open>_get_data\<close> as they are.
\<close>

theorem uncaught_failures_are_not_data_errors:
  "urlopen_read incomplete_read_env (topology_base fresh @ ''/rgsummary/xml'') =
     OtherFetchError ''http.client.IncompleteRead'' \<and>
   get_data incomplete_read_env fresh ''/rgsummary/xml'' =
     Inl (Uncaught ''http.client.IncompleteRead'') \<and>
   urlopen_read unknown_encoding_env (topology_base fresh @ ''/rgsummary/xml'') = Response ''b'' \<and>
   fromstring unknown_encoding_env ''b'' = OtherParseError ''LookupError'' \<and>
   get_data unknown_encoding_env fresh ''/rgsummary/xml'' = Inl (Uncaught ''LookupError'')"
  by (simp add: get_data_def incomplete_read_env_def unknown_encoding_env_def)

subsection \<open>The allocations of a project\<close>

lemma findall_path_children:
  "findall_path doc [t] \<noteq> [] \<Longrightarrow> children doc \<noteq> []"
  by auto

lemma surviving_project_entry:
  assumes "get_project_resource_allocations s = Inr (ret, lg)"
    and "projects s = Some doc" and "truthy (resources s)"
    and "findall_path doc [''Project''] = pre @ p # post"
    and "project_name_of p \<noteq> []"
    and "project_name_of p \<notin> project_name_of ` set post"
  shows "ret (project_name_of p) = Some (project_allocations s p)"
proof -
  from assms(4) have "children doc \<noteq> []"
    by (intro findall_path_children[of doc "''Project''"]) simp
  from get_project_resource_allocations_Inr[OF assms(1,2) this assms(3)]
  have "ret = last_wins project_name_of (project_allocations s) (named_projects doc)" .
  moreover have "last_wins project_name_of (project_allocations s) (named_projects doc)
      (project_name_of p) = Some (project_allocations s p)"
    unfolding named_projects_def
    using assms(4,5,6) by (intro last_wins_filter_last[where pre = pre and post = post])
  ultimately show ?thesis by simp
qed

lemma emitted_allocations_of_a_project:
  assumes "get_project_resource_allocations s = Inr (ret, lg)" and "ret pn = Some allocs"
  shows "\<exists>p. allocs = project_allocations s p"
proof (cases "truthy (projects s) \<and> truthy (resources s)")
  case False
  with assms(1) have "ret = Map.empty"
    by (auto simp: get_project_resource_allocations_def)
  with assms(2) show ?thesis by simp
next
  case True
  then obtain doc where doc: "projects s = Some doc" "children doc \<noteq> []"
    by (auto simp: truthy_def split: option.splits)
  from get_project_resource_allocations_Inr[OF assms(1) doc] True
  have "ret = last_wins project_name_of (project_allocations s) (named_projects doc)"
    by simp
  with assms(2) show ?thesis
    by (auto dest: last_wins_SomeD)
qed

lemma set_map_filter: "set (List.map_filter f xs) = {y. \<exists>x\<in>set xs. f x = Some y}"
  by (induction xs) (auto split: option.splits)








text \<open>
  C5. For every execute-resource-group entry of the output, the group is indexed, and
  \<^verbatim>\<open>ces\<close> is the list of the FQDN and name of the group's resources whose service ids
  contain \<^verbatim>\<open>"1"\<close>, in the group's order; a resource without that id is filtered out.
\<close>

theorem ces_are_the_compute_entrypoints:
  assumes "get_project_resource_allocations s = Inr (ret, lg)"
    and "ret pn = Some allocs" and "a \<in> set allocs"
    and "g \<in> set (alloc_execute_resource_groups a)"
  shows "\<exists>rl. grouped_resinfo s (erg_group_name g) = Some rl \<and>
     erg_ces g = map (\<lambda>r. \<lparr>ce_fqdn = fqdn r, ce_name = name r\<rparr>)
                   (filter (\<lambda>r. ''1'' \<in> set (service_ids r)) rl)"
proof -
  from emitted_allocations_of_a_project[OF assms(1,2)] assms(3)
  obtain ra where "a = allocation_entry s ra"
    by (auto simp: project_allocations_def)
  with assms(4) obtain e where e: "execute_group_entry s e = Some g"
    by (auto simp: allocation_entry_def set_map_filter)
  have "is_ce = (\<lambda>r. ''1'' \<in> set (service_ids r))"
    by (simp add: fun_eq_iff is_ce_def SERVICE_ID_CE_def)
  moreover have "ce_entry_of = (\<lambda>r. \<lparr>ce_fqdn = fqdn r, ce_name = name r\<rparr>)"
    by (simp add: fun_eq_iff ce_entry_of_def)
  ultimately show ?thesis
    using e by (auto simp: execute_group_entry_def Let_def split: if_splits option.splits)
qed

text \<open>
  The theorem at the example: the group holds a compute entrypoint and a Schedd-only
  resource, and \<^verbatim>\<open>ces\<close> has the entrypoint only.
\<close>

theorem ces_are_the_compute_entrypoints_witness:
  "get_project_resource_allocations example_state =
     Inr ([''ProjA'' \<mapsto> [hosted_allocation, other_allocation]], example_join_warnings) \<and>
   [''ProjA'' \<mapsto> [hosted_allocation, other_allocation]] ''ProjA'' =
     Some [hosted_allocation, other_allocation] \<and>
   hosted_allocation \<in> set [hosted_allocation, other_allocation] \<and>
   hosted_execute_group \<in> set (alloc_execute_resource_groups hosted_allocation) \<and>
   grouped_resinfo example_state (erg_group_name hosted_execute_group) = Some [ce1, ap1] \<and>
   is_schedd ap1 \<and> \<not> is_ce ap1 \<and>
   erg_ces hosted_execute_group =
     map (\<lambda>r. \<lparr>ce_fqdn = fqdn r, ce_name = name r\<rparr>)
       (filter (\<lambda>r. ''1'' \<in> set (service_ids r)) [ce1, ap1]) \<and>
   erg_ces hosted_execute_group = [\<lparr>ce_fqdn = ''ce1.example.net'', ce_name = ''ce1''\<rparr>]"
proof -
  have h2: "[''ProjA'' \<mapsto> [hosted_allocation, other_allocation]] ''ProjA'' =
     Some [hosted_allocation, other_allocation]"
    by simp
  have h3: "hosted_allocation \<in> set [hosted_allocation, other_allocation]"
    by simp
  have h4: "hosted_execute_group \<in> set (alloc_execute_resource_groups hosted_allocation)"
    by (simp add: hosted_execute_group_def hosted_allocation_def)
  have g: "grouped_resinfo example_state (erg_group_name hosted_execute_group) = Some [ce1, ap1]"
    by (simp add: hosted_execute_group_def example_state_def example_indexed_def)
  have s: "is_schedd ap1" "\<not> is_ce ap1"
    by (simp_all add: is_schedd_def is_ce_def SERVICE_ID_SCHEDD_def SERVICE_ID_CE_def ap1_def)
  have e: "erg_ces hosted_execute_group = [\<lparr>ce_fqdn = ''ce1.example.net'', ce_name = ''ce1''\<rparr>]"
    by (simp add: hosted_execute_group_def)
  from ces_are_the_compute_entrypoints[OF example_join h2 h3 h4] g
  have c: "erg_ces hosted_execute_group =
     map (\<lambda>r. \<lparr>ce_fqdn = fqdn r, ce_name = name r\<rparr>)
       (filter (\<lambda>r. ''1'' \<in> set (service_ids r)) [ce1, ap1])"
    by auto
  from example_join h2 h3 h4 g s c e show ?thesis
    by (intro conjI)
qed

text \<open>
  C9, as the program has it. When the join returns and the resource document has child
  elements: if two projects have the same non-empty name and no later project has it, the
  entry for the name holds the allocations of the later of the two.
\<close>

theorem later_project_replaces_earlier:
  assumes "get_project_resource_allocations s = Inr (ret, lg)"
    and "projects s = Some doc" and "truthy (resources s)"
    and "findall_path doc [''Project''] = pre @ p1 # mid @ p2 # post"
    and "project_name_of p1 = project_name_of p2"
    and "project_name_of p2 \<noteq> []"
    and "project_name_of p2 \<notin> project_name_of ` set post"
  shows "ret (project_name_of p1) = Some (project_allocations s p2)"
proof -
  from assms(4) have "findall_path doc [''Project''] = (pre @ p1 # mid) @ p2 # post"
    by simp
  from surviving_project_entry[OF assms(1,2,3) this assms(6,7)] assms(5)
  show ?thesis by simp
qed

text \<open>
  The theorem at the example: the entry has the two allocations of the later project, not
  the one of the earlier project.
\<close>

theorem later_project_replaces_earlier_witness:
  "get_project_resource_allocations example_state =
     Inr ([''ProjA'' \<mapsto> [hosted_allocation, other_allocation]], example_join_warnings) \<and>
   projects example_state = Some example_projects \<and>
   truthy (resources example_state) \<and>
   findall_path example_projects [''Project''] =
     [] @ earlier_project_elem # [] @ later_project_elem # [nameless_project_elem] \<and>
   project_name_of earlier_project_elem = project_name_of later_project_elem \<and>
   project_name_of later_project_elem \<noteq> [] \<and>
   project_name_of later_project_elem \<notin> project_name_of ` set [nameless_project_elem] \<and>
   [''ProjA'' \<mapsto> [hosted_allocation, other_allocation]] (project_name_of earlier_project_elem) =
     Some (project_allocations example_state later_project_elem) \<and>
   length (project_allocations example_state earlier_project_elem) = 1 \<and>
   length (project_allocations example_state later_project_elem) = 2"
proof -
  have h4: "findall_path example_projects [''Project''] =
     [] @ earlier_project_elem # [] @ later_project_elem # [nameless_project_elem]"
    using example_projects_split by simp
  have h5: "project_name_of earlier_project_elem = project_name_of later_project_elem"
    and h6: "project_name_of later_project_elem \<noteq> []"
    and h7: "project_name_of later_project_elem \<notin> project_name_of ` set [nameless_project_elem]"
    by (simp_all add: later_project_name)
  have l1: "length (project_allocations example_state earlier_project_elem) = 1"
    by (simp add: project_allocations_def ex_defs ex3_defs join_view_defs)
  have l2: "length (project_allocations example_state later_project_elem) = 2"
    by (simp add: project_allocations_def later_project_present)
  note c = later_project_replaces_earlier[OF example_join example_state_fields h4 h5 h6 h7]
  from example_join example_state_fields h4 h5 h6 h7 c l1 l2 show ?thesis
    by (intro conjI)
qed

text \<open>
  C9 as it is stated, for every project document with two projects of the same name, fails
  when the root of the resource document has no children: the join returns the empty
  mapping before it looks at a project, so the name has no entry.
\<close>

theorem no_entry_when_the_resource_document_is_childless:
  "get_project_resource_allocations childless_resources_state = Inr (Map.empty, []) \<and>
   projects childless_resources_state = Some example_projects \<and>
   resources childless_resources_state = Some no_resources_doc \<and>
   children no_resources_doc = [] \<and>
   findall_path example_projects [''Project''] =
     [earlier_project_elem, later_project_elem, nameless_project_elem] \<and>
   project_name_of earlier_project_elem = ''ProjA'' \<and>
   project_name_of later_project_elem = ''ProjA''"
proof (intro conjI)
  show "get_project_resource_allocations childless_resources_state = Inr (Map.empty, [])"
    by (rule childless_resources_join)
  show "projects childless_resources_state = Some example_projects"
    and "resources childless_resources_state = Some no_resources_doc"
    by (simp_all add: childless_resources_state_def)
  show "children no_resources_doc = []"
    by (simp add: no_resources_doc_def)
  show "findall_path example_projects [''Project''] =
     [earlier_project_elem, later_project_elem, nameless_project_elem]"
    using example_projects_split by simp
  show "project_name_of earlier_project_elem = ''ProjA''"
    and "project_name_of later_project_elem = ''ProjA''"
    by (rule later_project_name)+
qed

text \<open>
  C10. When the root element of the project document or of the resource document has no
  children, the join returns the empty mapping and logs nothing, as it does when the
  document is absent.
\<close>

theorem join_of_a_childless_document_is_empty:
  assumes "(projects s = Some e \<and> children e = []) \<or> (resources s = Some e \<and> children e = [])"
  shows "get_project_resource_allocations s = Inr (Map.empty, []) \<and>
         get_project_resource_allocations (s\<lparr>projects := None\<rparr>) = Inr (Map.empty, []) \<and>
         get_project_resource_allocations (s\<lparr>resources := None\<rparr>) = Inr (Map.empty, [])"
  using assms by (auto simp: get_project_resource_allocations_def truthy_def)

text \<open>
  The theorem at an object whose project document has no children, while its table and
  indices are filled.
\<close>

theorem join_of_a_childless_document_is_empty_witness:
  "((projects childless_projects_state = Some no_projects_doc \<and> children no_projects_doc = []) \<or>
    (resources childless_projects_state = Some no_projects_doc \<and> children no_projects_doc = [])) \<and>
   resinfo_table childless_projects_state = [ce1, ap1] \<and>
   truthy (resources childless_projects_state) \<and>
   get_project_resource_allocations childless_projects_state = Inr (Map.empty, []) \<and>
   get_project_resource_allocations (childless_projects_state\<lparr>projects := None\<rparr>) =
     Inr (Map.empty, [])"
proof -
  have h: "(projects childless_projects_state = Some no_projects_doc \<and> children no_projects_doc = []) \<or>
    (resources childless_projects_state = Some no_projects_doc \<and> children no_projects_doc = [])"
    by (simp add: childless_projects_state_def no_projects_doc_def)
  have t: "resinfo_table childless_projects_state = [ce1, ap1]"
    by (simp add: childless_projects_state_def example_indexed_def)
  have r: "truthy (resources childless_projects_state)"
    by (simp add: childless_projects_state_def ex_defs truthy_def)
  from join_of_a_childless_document_is_empty[OF h] h t r show ?thesis
    by blast
qed

end
